theory Spec2Isabelle
  imports Main "HOL-Library.Sublist" "HOL-Library.List_Lexorder" "HOL-Library.Char_ord"
begin

section \<open>The host environment: file system and JavaScript helpers\<close>

text \<open>
  The scripts of the repository talk to the file system through \<^verbatim>\<open>fs.existsSync\<close>,
  \<^verbatim>\<open>fs.statSync\<close> and \<^verbatim>\<open>fs.readFileSync\<close>, always on a path built with
  \<^verbatim>\<open>path.join(dir, rel)\<close>. A file system is therefore a function of the directory and
  the relative path; it answers with the node found there, if any. A file carries its text
  (the characters that \<^verbatim>\<open>readFileSync(..., 'utf8')\<close> returns, for texts of characters
  below 256; the file has size 0 exactly when that text is empty), a directory the size
  \<^verbatim>\<open>statSync\<close> reports for it.
\<close>

datatype node = File string | Dir nat

type_synonym filesystem = "string \<Rightarrow> string \<Rightarrow> node option"

definition existsSync :: "filesystem \<Rightarrow> string \<Rightarrow> string \<Rightarrow> bool" where
  "existsSync fs d r = (fs d r \<noteq> None)"

text \<open>\<^verbatim>\<open>readFileSync\<close> throws on a missing path and on a directory; the exception's
  message is the left summand.\<close>

definition readFileSync :: "filesystem \<Rightarrow> string \<Rightarrow> string \<Rightarrow> string + string" where
  "readFileSync fs d r =
     (case fs d r of
        None \<Rightarrow> Inl ''ENOENT: no such file or directory''
      | Some (Dir n) \<Rightarrow> Inl ''EISDIR: illegal operation on a directory, read''
      | Some (File t) \<Rightarrow> Inr t)"

text \<open>\<^verbatim>\<open>statSync(p).size\<close> and \<^verbatim>\<open>statSync(p).isDirectory()\<close> of an existing node.\<close>

fun stat_size :: "node \<Rightarrow> nat" where
  "stat_size (File t) = length t"
| "stat_size (Dir n) = n"

fun isDirectory :: "node \<Rightarrow> bool" where
  "isDirectory (File t) = False"
| "isDirectory (Dir n) = True"

text \<open>\<^verbatim>\<open>path.basename\<close> (POSIX): trailing separators are ignored, the result is what
  follows the last remaining separator.\<close>

definition basename :: "string \<Rightarrow> string" where
  "basename p =
     rev (takeWhile (\<lambda>c. c \<noteq> CHR ''/'') (dropWhile (\<lambda>c. c = CHR ''/'') (rev p)))"

text \<open>\<^verbatim>\<open>Array.prototype.join\<close> on strings.\<close>

fun join :: "string \<Rightarrow> string list \<Rightarrow> string" where
  "join sep [] = []"
| "join sep [x] = x"
| "join sep (x # y # ys) = x @ sep @ join sep (y # ys)"

text \<open>\<^verbatim>\<open>String.prototype.toLowerCase\<close> on the ASCII letters (no other character below
  256 becomes an ASCII letter, and the searches below are for ASCII letters only), and
  \<^verbatim>\<open>String.prototype.includes\<close>.\<close>

definition lower_char :: "char \<Rightarrow> char" where
  "lower_char c =
     (if CHR ''A'' \<le> c \<and> c \<le> CHR ''Z'' then char_of (of_char c + (32::nat)) else c)"

definition toLowerCase :: "string \<Rightarrow> string" where
  "toLowerCase s = map lower_char s"

fun includes_str :: "string \<Rightarrow> string \<Rightarrow> bool" where
  "includes_str [] needle = (needle = [])"
| "includes_str (c # cs) needle = (prefix needle (c # cs) \<or> includes_str cs needle)"

section \<open>Regular expressions\<close>

text \<open>
  The naming check is a regular expression literal. Regular expressions are embedded as a
  datatype; \<open>matches\<close> is their meaning, \<open>regex_test\<close> the executable test of a whole
  string (the literal is anchored with \<^verbatim>\<open>^\<close> and \<^verbatim>\<open>$\<close> and has no flags, so
  \<^verbatim>\<open>test\<close> succeeds exactly on the strings the expression matches entirely).
\<close>

datatype regex =
    Never
  | Empty
  | Class "char \<Rightarrow> bool"
  | Seq regex regex
  | Alt regex regex
  | Star regex
  | Plus regex

inductive matches :: "regex \<Rightarrow> string \<Rightarrow> bool" where
  m_Empty: "matches Empty []"
| m_Class: "P c \<Longrightarrow> matches (Class P) [c]"
| m_Seq: "matches r u \<Longrightarrow> matches s v \<Longrightarrow> matches (Seq r s) (u @ v)"
| m_AltL: "matches r u \<Longrightarrow> matches (Alt r s) u"
| m_AltR: "matches s u \<Longrightarrow> matches (Alt r s) u"
| m_Star0: "matches (Star r) []"
| m_StarS: "matches r u \<Longrightarrow> matches (Star r) v \<Longrightarrow> matches (Star r) (u @ v)"
| m_Plus: "matches r u \<Longrightarrow> matches (Star r) v \<Longrightarrow> matches (Plus r) (u @ v)"

fun nullable :: "regex \<Rightarrow> bool" where
  "nullable Never = False"
| "nullable Empty = True"
| "nullable (Class P) = False"
| "nullable (Seq r s) = (nullable r \<and> nullable s)"
| "nullable (Alt r s) = (nullable r \<or> nullable s)"
| "nullable (Star r) = True"
| "nullable (Plus r) = nullable r"

fun deriv :: "regex \<Rightarrow> char \<Rightarrow> regex" where
  "deriv Never c = Never"
| "deriv Empty c = Never"
| "deriv (Class P) c = (if P c then Empty else Never)"
| "deriv (Seq r s) c =
     (if nullable r then Alt (Seq (deriv r c) s) (deriv s c) else Seq (deriv r c) s)"
| "deriv (Alt r s) c = Alt (deriv r c) (deriv s c)"
| "deriv (Star r) c = Seq (deriv r c) (Star r)"
| "deriv (Plus r) c = Seq (deriv r c) (Star r)"

definition regex_test :: "regex \<Rightarrow> string \<Rightarrow> bool" where
  "regex_test r s = nullable (foldl deriv r s)"

section \<open>The pattern validator\<close>

text \<open>
  \<^verbatim>\<open>PatternValidator\<close> accumulates two arrays of messages. What it prints with
  \<^verbatim>\<open>console.log\<close> is not part of the state.
\<close>

record validator =
  errors :: "string list"
  warnings :: "string list"

definition new_validator :: validator where
  "new_validator = \<lparr>errors = [], warnings = []\<rparr>"

definition error :: "string \<Rightarrow> validator \<Rightarrow> validator" where
  "error message v = v\<lparr>errors := errors v @ [message]\<rparr>"

definition warning :: "string \<Rightarrow> validator \<Rightarrow> validator" where
  "warning message v = v\<lparr>warnings := warnings v @ [message]\<rparr>"

subsection \<open>Step 1: the pattern id\<close>

definition lower_alnum :: "char \<Rightarrow> bool" where
  "lower_alnum c =
     ((CHR ''a'' \<le> c \<and> c \<le> CHR ''z'') \<or> (CHR ''0'' \<le> c \<and> c \<le> CHR ''9''))"

definition is_hyphen :: "char \<Rightarrow> bool" where
  "is_hyphen c = (c = CHR ''-'')"

text \<open>\<^verbatim>\<open>/^[a-z0-9]+(?:-[a-z0-9]+)*$/\<close>\<close>

definition kebabCaseRegex :: regex where
  "kebabCaseRegex =
     Seq (Plus (Class lower_alnum)) (Star (Seq (Class is_hyphen) (Plus (Class lower_alnum))))"

definition naming_error :: "string \<Rightarrow> string" where
  "naming_error patternId =
     ''Pattern ID \"'' @ patternId @ ''\" does not follow kebab-case naming convention. '' @
     ''Use lowercase letters, numbers, and hyphens only (e.g., \"my-pattern-name\").''"

definition validatePatternId :: "string \<Rightarrow> validator \<Rightarrow> bool \<times> validator" where
  "validatePatternId patternDir v =
     (let patternId = basename patternDir in
      if \<not> regex_test kebabCaseRegex patternId
      then (False, error (naming_error patternId) v)
      else (True, v))"

text \<open>
  The naming rule in the words of the specification: lowercase alphanumerics separated by
  single hyphens, with no leading, trailing or double hyphen (and hence not empty).
\<close>

definition kebab_case :: "string \<Rightarrow> bool" where
  "kebab_case s =
     (s \<noteq> [] \<and> (\<forall>c \<in> set s. lower_alnum c \<or> c = CHR ''-'') \<and>
      hd s \<noteq> CHR ''-'' \<and> last s \<noteq> CHR ''-'' \<and> \<not> sublist ''--'' s)"

text \<open>A two-state scanner for the same language, used to relate the regular expression to
  the rule above: the flag says whether the previous character was alphanumeric.\<close>

fun kebab_scan :: "bool \<Rightarrow> string \<Rightarrow> bool" where
  "kebab_scan b [] = b"
| "kebab_scan b (c # cs) =
     (if lower_alnum c then kebab_scan True cs
      else if c = CHR ''-'' \<and> b then kebab_scan False cs
      else False)"

subsection \<open>Step 2: required files\<close>

text \<open>One round of the loop over \<^verbatim>\<open>requiredFiles\<close>, and one of the loop over
  \<^verbatim>\<open>requiredDirs\<close>; the flag is \<^verbatim>\<open>allFilesExist\<close>.\<close>

definition check_required_file ::
  "filesystem \<Rightarrow> string \<Rightarrow> bool \<times> validator \<Rightarrow> string \<Rightarrow> bool \<times> validator" where
  "check_required_file fs patternDir acc file =
     (case fs patternDir file of
        None \<Rightarrow> (False, error (''Required file missing: '' @ file) (snd acc))
      | Some n \<Rightarrow>
          if stat_size n = 0
          then (False, error (''Required file is empty: '' @ file) (snd acc))
          else acc)"

definition check_required_dir ::
  "filesystem \<Rightarrow> string \<Rightarrow> bool \<times> validator \<Rightarrow> string \<Rightarrow> bool \<times> validator" where
  "check_required_dir fs patternDir acc dir =
     (case fs patternDir dir of
        None \<Rightarrow> (False, error (''Required directory missing: '' @ dir @ ''/'') (snd acc))
      | Some n \<Rightarrow>
          if \<not> isDirectory n
          then (False, error (dir @ '' exists but is not a directory'') (snd acc))
          else acc)"

definition requiredFiles :: "string list" where
  "requiredFiles = [''pattern.yaml'', ''README.md'']"

definition requiredDirs :: "string list" where
  "requiredDirs = [''diagrams'']"

definition validateRequiredFiles :: "filesystem \<Rightarrow> string \<Rightarrow> validator \<Rightarrow> bool \<times> validator" where
  "validateRequiredFiles fs patternDir v =
     foldl (check_required_dir fs patternDir)
       (foldl (check_required_file fs patternDir) (True, v) requiredFiles)
       requiredDirs"

subsection \<open>Step 3: the metadata file\<close>

text \<open>
  The parsed metadata, as far as the scripts read it: \<^verbatim>\<open>category\<close>,
  \<^verbatim>\<open>architecture_diagram\<close> and \<^verbatim>\<open>implementation.code_snippets[i].file\<close>, each
  of which may be absent. The fields have the types the schema gives them (strings, and a
  list of objects with a \<^verbatim>\<open>file\<close> string). A YAML document that is no mapping has none
  of the fields; an empty document parses to \<^verbatim>\<open>undefined\<close>, on which reading a
  property throws.
\<close>

record code_snippet =
  snippet_file :: string

record implementation =
  code_snippets :: "code_snippet list option"

record pattern_data =
  category :: "string option"
  architecture_diagram :: "string option"
  implementation :: "implementation option"

datatype yaml_doc = Undefined | Doc pattern_data

text \<open>
  The two libraries are parameters of the model: \<^verbatim>\<open>yaml.load\<close> maps a text to a parsed
  document or throws with a message (\<open>Inl\<close>); \<^verbatim>\<open>JSON.parse\<close> accepts the schema text
  or throws with a message (\<open>Some\<close>); \<^verbatim>\<open>ajv.compile\<close> turns an accepted schema text
  into a validating function, which returns the list of violations (empty when the document
  conforms), or throws (\<open>None\<close>).
\<close>

record ajv_error =
  instancePath :: string
  missingProperty :: "string option"
  message :: string

record libs =
  yaml_load :: "string \<Rightarrow> string + yaml_doc"
  json_parse_error :: "string \<Rightarrow> string option"
  ajv_compile :: "string \<Rightarrow> (yaml_doc \<Rightarrow> ajv_error list) option"

text \<open>An uncaught exception leaves \<^verbatim>\<open>validate\<close> through the rejected promise.\<close>

datatype crash = Uncaught string

text \<open>\<^verbatim>\<open>error.instancePath || error.params.missingProperty || 'root'\<close>\<close>

definition error_field :: "ajv_error \<Rightarrow> string" where
  "error_field e =
     (if instancePath e \<noteq> [] then instancePath e
      else case missingProperty e of
             Some m \<Rightarrow> if m \<noteq> [] then m else ''root''
           | None \<Rightarrow> ''root'')"

definition schema_error_line :: "ajv_error \<Rightarrow> string" where
  "schema_error_line e = ''  - '' @ error_field e @ '': '' @ message e"

text \<open>The loop over \<^verbatim>\<open>code_snippets\<close>: it returns at the first missing file.\<close>

fun check_snippets :: "filesystem \<Rightarrow> string \<Rightarrow> code_snippet list \<Rightarrow> validator \<Rightarrow> bool \<times> validator" where
  "check_snippets fs patternDir [] v = (True, v)"
| "check_snippets fs patternDir (snippet # rest) v =
     (if \<not> existsSync fs patternDir (snippet_file snippet)
      then (False, error (''Code snippet file not found: '' @ snippet_file snippet) v)
      else check_snippets fs patternDir rest v)"

text \<open>The part of \<^verbatim>\<open>validatePatternYaml\<close> after the schema check: the referenced files.\<close>

definition check_references :: "filesystem \<Rightarrow> string \<Rightarrow> pattern_data \<Rightarrow> validator \<Rightarrow> bool \<times> validator" where
  "check_references fs patternDir patternData v =
     (let diagram = (case architecture_diagram patternData of
                       None \<Rightarrow> [] | Some d \<Rightarrow> d) in
      if diagram \<noteq> [] \<and> \<not> existsSync fs patternDir diagram
      then (False, error (''Architecture diagram not found: '' @ diagram) v)
      else
        case implementation patternData of
          None \<Rightarrow> (True, v)
        | Some impl \<Rightarrow>
            (case code_snippets impl of
               None \<Rightarrow> (True, v)
             | Some snippets \<Rightarrow> check_snippets fs patternDir snippets v))"

text \<open>The two \<^verbatim>\<open>try\<close> blocks: read and parse the metadata file, read and parse the
  schema. \<open>Inl\<close> is the message of the exception caught.\<close>

definition load_pattern_yaml :: "libs \<Rightarrow> filesystem \<Rightarrow> string \<Rightarrow> string + yaml_doc" where
  "load_pattern_yaml L fs patternDir =
     (case readFileSync fs patternDir ''pattern.yaml'' of
        Inl msg \<Rightarrow> Inl msg
      | Inr yamlContent \<Rightarrow> yaml_load L yamlContent)"

definition load_schema :: "libs \<Rightarrow> filesystem \<Rightarrow> string \<Rightarrow> string + string" where
  "load_schema L fs repoRoot =
     (case readFileSync fs repoRoot ''schemas/pattern-schema.json'' of
        Inl msg \<Rightarrow> Inl msg
      | Inr schemaContent \<Rightarrow>
          (case json_parse_error L schemaContent of
             Some msg \<Rightarrow> Inl msg
           | None \<Rightarrow> Inr schemaContent))"

definition validatePatternYaml ::
  "libs \<Rightarrow> filesystem \<Rightarrow> string \<Rightarrow> string \<Rightarrow> validator \<Rightarrow> crash + bool \<times> validator" where
  "validatePatternYaml L fs patternDir repoRoot v =
     (if \<not> existsSync fs patternDir ''pattern.yaml''
      then Inr (False, error ''pattern.yaml not found'' v)
      else
        case load_pattern_yaml L fs patternDir of
          Inl msg \<Rightarrow> Inr (False, error (''Failed to parse pattern.yaml: '' @ msg) v)
        | Inr patternData \<Rightarrow>
            if \<not> existsSync fs repoRoot ''schemas/pattern-schema.json''
            then Inr (False, error ''JSON Schema not found at schemas/pattern-schema.json'' v)
            else
              case load_schema L fs repoRoot of
                Inl msg \<Rightarrow> Inr (False, error (''Failed to load JSON Schema: '' @ msg) v)
              | Inr schema \<Rightarrow>
                  (case ajv_compile L schema of
                     None \<Rightarrow> Inl (Uncaught ''schema is invalid'')
                   | Some validate_fn \<Rightarrow>
                       let violations = validate_fn patternData in
                       if violations \<noteq> []
                       then Inr (False,
                              foldl (\<lambda>w e. error (schema_error_line e) w)
                                (error ''pattern.yaml does not conform to JSON Schema:'' v)
                                violations)
                       else
                         (case patternData of
                            Undefined \<Rightarrow> Inl (Uncaught ''TypeError: Cannot read properties of undefined'')
                          | Doc d \<Rightarrow> Inr (check_references fs patternDir d v))))"

subsection \<open>Step 4: the documentation file\<close>

definition minLength :: nat where
  "minLength = 100"

definition recommendedSections :: "string list" where
  "recommendedSections = [''Overview'', ''Architecture'', ''Implementation'', ''Prerequisites'']"

definition missingSections :: "string \<Rightarrow> string list" where
  "missingSections content =
     filter (\<lambda>section. \<not> includes_str (toLowerCase content) (toLowerCase section))
       recommendedSections"

definition too_short_warning :: string where
  "too_short_warning = ''README.md seems too short. Consider adding more documentation.''"

definition missing_sections_warning :: "string list \<Rightarrow> string" where
  "missing_sections_warning missing =
     ''README.md is missing recommended sections: '' @ join '', '' missing"

definition validateReadme :: "filesystem \<Rightarrow> string \<Rightarrow> validator \<Rightarrow> crash + bool \<times> validator" where
  "validateReadme fs patternDir v =
     (if \<not> existsSync fs patternDir ''README.md'' then Inr (False, v)
      else
        case readFileSync fs patternDir ''README.md'' of
          Inl msg \<Rightarrow> Inl (Uncaught msg)
        | Inr content \<Rightarrow>
            if length content < minLength
            then Inr (True, warning too_short_warning v)
            else if missingSections content \<noteq> []
            then Inr (True, warning (missing_sections_warning (missingSections content)) v)
            else Inr (True, v))"

subsection \<open>The main validation function\<close>

text \<open>The summary at the end of \<^verbatim>\<open>validate\<close> only reads the two arrays; the value
  returned is the exit code that \<^verbatim>\<open>main\<close> passes to \<^verbatim>\<open>process.exit\<close>.\<close>

definition summary_code :: "validator \<Rightarrow> nat" where
  "summary_code v =
     (if errors v = [] \<and> warnings v = [] then 0
      else if errors v \<noteq> [] then 1
      else 0)"

definition validate :: "libs \<Rightarrow> filesystem \<Rightarrow> string \<Rightarrow> string \<Rightarrow> validator \<Rightarrow> crash + nat \<times> validator" where
  "validate L fs patternDir repoRoot v =
     (let v1 = snd (validatePatternId patternDir v);
          v2 = snd (validateRequiredFiles fs patternDir v1) in
      case validatePatternYaml L fs patternDir repoRoot v2 of
        Inl c \<Rightarrow> Inl c
      | Inr (yamlValid, v3) \<Rightarrow>
          (case validateReadme fs patternDir v3 of
             Inl c \<Rightarrow> Inl c
           | Inr (readmeValid, v4) \<Rightarrow> Inr (summary_code v4, v4)))"

text \<open>The verdict of a finished run: FAIL when an error was recorded.\<close>

definition verdict_fail :: "validator \<Rightarrow> bool" where
  "verdict_fail v = (errors v \<noteq> [])"

text \<open>The status the process ends with, once \<^verbatim>\<open>main\<close> has found the directory:
  \<^verbatim>\<open>process.exit(exitCode)\<close>, or \<^verbatim>\<open>process.exit(1)\<close> in the handler of a rejected
  promise.\<close>

definition process_exit :: "crash + nat \<times> validator \<Rightarrow> nat" where
  "process_exit r = (case r of Inl c \<Rightarrow> 1 | Inr (exitCode, v) \<Rightarrow> exitCode)"

section \<open>The reviewer notifier\<close>

record sme =
  reviewers :: "string list"
  team :: string
  description :: string

definition SME_MAPPING :: "(string \<times> sme) list" where
  "SME_MAPPING =
     [(''automation'',
        \<lparr>reviewers = [''automation-sme1'', ''automation-sme2''],
         team = ''automation-team'', description = ''Automation & Workflows''\<rparr>),
      (''observability'',
        \<lparr>reviewers = [''observability-sme1'', ''observability-sme2''],
         team = ''observability-team'', description = ''Observability & Monitoring''\<rparr>),
      (''security'',
        \<lparr>reviewers = [''security-sme1'', ''security-sme2''],
         team = ''security-team'', description = ''Security & Compliance''\<rparr>),
      (''monitoring'',
        \<lparr>reviewers = [''monitoring-sme1'', ''monitoring-sme2''],
         team = ''monitoring-team'', description = ''System Monitoring''\<rparr>),
      (''integration'',
        \<lparr>reviewers = [''integration-sme1'', ''integration-sme2''],
         team = ''integration-team'', description = ''System Integration''\<rparr>),
      (''data-protection'',
        \<lparr>reviewers = [''data-protection-sme1'', ''data-protection-sme2''],
         team = ''data-protection-team'', description = ''Data Protection & Recovery''\<rparr>)]"

definition FALLBACK_REVIEWERS :: "string list" where
  "FALLBACK_REVIEWERS = [''pattern-maintainer1'', ''pattern-maintainer2'']"

text \<open>
  \<^verbatim>\<open>SME_MAPPING[category]\<close> is a property read on an object literal: besides the six own
  keys it finds what every object inherits from \<^verbatim>\<open>Object.prototype\<close>. An inherited
  value is truthy and has neither \<^verbatim>\<open>reviewers\<close> nor \<^verbatim>\<open>description\<close>.
\<close>

datatype 'a property = Own 'a | Inherited | Missing

definition object_prototype_keys :: "string list" where
  "object_prototype_keys =
     [''constructor'', ''__defineGetter__'', ''__defineSetter__'', ''hasOwnProperty'',
      ''__lookupGetter__'', ''__lookupSetter__'', ''isPrototypeOf'', ''propertyIsEnumerable'',
      ''toString'', ''valueOf'', ''__proto__'', ''toLocaleString'']"

definition get_property :: "(string \<times> 'a) list \<Rightarrow> string \<Rightarrow> 'a property" where
  "get_property obj key =
     (case map_of obj key of
        Some x \<Rightarrow> Own x
      | None \<Rightarrow> if key \<in> set object_prototype_keys then Inherited else Missing)"

text \<open>One element of \<^verbatim>\<open>this.patterns\<close>.\<close>

record assignment =
  directory :: string
  label :: string
  assigned :: "string list"

text \<open>
  The state of a \<^verbatim>\<open>ReviewerNotifier\<close>. A \<^verbatim>\<open>Set\<close> is a list without duplicates in
  insertion order, a \<^verbatim>\<open>Map\<close> an association list in insertion order; both are iterated
  in that order.
\<close>

record notifier =
  allReviewers :: "string list"
  categoryReviewers :: "(string \<times> string list) list"
  patterns :: "assignment list"

definition new_notifier :: notifier where
  "new_notifier = \<lparr>allReviewers = [], categoryReviewers = [], patterns = []\<rparr>"

definition set_add :: "'a \<Rightarrow> 'a list \<Rightarrow> 'a list" where
  "set_add x xs = (if x \<in> set xs then xs else xs @ [x])"

definition map_has :: "('k \<times> 'v) list \<Rightarrow> 'k \<Rightarrow> bool" where
  "map_has m k = (k \<in> fst ` set m)"

fun map_set :: "'k \<Rightarrow> 'v \<Rightarrow> ('k \<times> 'v) list \<Rightarrow> ('k \<times> 'v) list" where
  "map_set k v [] = [(k, v)]"
| "map_set k v ((k', v') # m) = (if k' = k then (k, v) # m else (k', v') # map_set k v m)"

text \<open>\<^verbatim>\<open>getPatternCategory\<close>: every failure is caught and answered with \<^verbatim>\<open>null\<close>;
  so is a category that is missing or falsy (\<^verbatim>\<open>patternData.category || null\<close>).\<close>

definition getPatternCategory :: "libs \<Rightarrow> filesystem \<Rightarrow> string \<Rightarrow> string option" where
  "getPatternCategory L fs patternDir =
     (if \<not> existsSync fs patternDir ''pattern.yaml'' then None
      else
        case load_pattern_yaml L fs patternDir of
          Inl msg \<Rightarrow> None
        | Inr Undefined \<Rightarrow> None
        | Inr (Doc patternData) \<Rightarrow>
            (case category patternData of
               None \<Rightarrow> None
             | Some c \<Rightarrow> if c = [] then None else Some c))"

definition getReviewersForCategory :: "string option \<Rightarrow> string list" where
  "getReviewersForCategory cat =
     (case cat of
        None \<Rightarrow> FALLBACK_REVIEWERS
      | Some c \<Rightarrow>
          (case get_property SME_MAPPING c of
             Missing \<Rightarrow> FALLBACK_REVIEWERS
           | Inherited \<Rightarrow> FALLBACK_REVIEWERS
           | Own s \<Rightarrow> reviewers s))"

text \<open>\<^verbatim>\<open>m.get(k).add(x)\<close>, where the key is present (the caller has just made sure).\<close>

definition map_get_add :: "'k \<Rightarrow> 'a \<Rightarrow> ('k \<times> 'a list) list \<Rightarrow> ('k \<times> 'a list) list" where
  "map_get_add k x m = map (\<lambda>(k', xs). if k' = k then (k', set_add x xs) else (k', xs)) m"

text \<open>The body of \<^verbatim>\<open>reviewers.forEach\<close> inside \<^verbatim>\<open>if (category)\<close>.\<close>

definition track_reviewer :: "string \<Rightarrow> notifier \<Rightarrow> string \<Rightarrow> notifier" where
  "track_reviewer c n reviewer =
     n\<lparr>categoryReviewers := map_get_add c reviewer (categoryReviewers n),
       allReviewers := set_add reviewer (allReviewers n)\<rparr>"

text \<open>One round of the loop of \<^verbatim>\<open>processPatterns\<close>.\<close>

definition process_pattern :: "libs \<Rightarrow> filesystem \<Rightarrow> notifier \<Rightarrow> string \<Rightarrow> notifier" where
  "process_pattern L fs n patternDir =
     (let cat = getPatternCategory L fs patternDir;
          revs = getReviewersForCategory cat;
          n1 = n\<lparr>patterns := patterns n @
                  [\<lparr>directory = patternDir,
                    label = (case cat of None \<Rightarrow> ''unknown'' | Some c \<Rightarrow> c),
                    assigned = revs\<rparr>]\<rparr>
      in case cat of
           None \<Rightarrow> n1
         | Some c \<Rightarrow>
             let n2 = (if \<not> map_has (categoryReviewers n1) c
                       then n1\<lparr>categoryReviewers := map_set c [] (categoryReviewers n1)\<rparr>
                       else n1)
             in foldl (track_reviewer c) n2 revs)"

definition processPatterns :: "libs \<Rightarrow> filesystem \<Rightarrow> string list \<Rightarrow> notifier \<Rightarrow> notifier" where
  "processPatterns L fs patternDirs n =
     (if patternDirs = [] then n else foldl (process_pattern L fs) n patternDirs)"

subsection \<open>The comment\<close>

text \<open>Texts are sequences of bytes (UTF-8); the pictographs of the source are spelled out.\<close>

definition nl :: string where
  "nl = [CHR 0x0A]"

definition icons :: "(string \<times> string) list" where
  "icons =
     [(''automation'', [CHR 0xF0, CHR 0x9F, CHR 0xA4, CHR 0x96]),
      (''observability'', [CHR 0xF0, CHR 0x9F, CHR 0x91, CHR 0x81, CHR 0xEF, CHR 0xB8, CHR 0x8F]),
      (''security'', [CHR 0xF0, CHR 0x9F, CHR 0x94, CHR 0x92]),
      (''monitoring'', [CHR 0xF0, CHR 0x9F, CHR 0x93, CHR 0x8A]),
      (''integration'', [CHR 0xF0, CHR 0x9F, CHR 0x94, CHR 0x97]),
      (''data-protection'', [CHR 0xF0, CHR 0x9F, CHR 0x92, CHR 0xBE])]"

text \<open>\<^verbatim>\<open>getCategoryIcon\<close> for a category that is no key of \<^verbatim>\<open>Object.prototype\<close>
  (for such a key \<^verbatim>\<open>generateComment\<close> throws before the icon can be seen).\<close>

definition getCategoryIcon :: "string \<Rightarrow> string" where
  "getCategoryIcon cat =
     (case map_of icons cat of
        Some icon \<Rightarrow> icon
      | None \<Rightarrow> [CHR 0xF0, CHR 0x9F, CHR 0x93, CHR 0xA6])"

text \<open>\<^verbatim>\<open>m.get(k).push(x)\<close>, where the key is present.\<close>

definition map_get_push :: "'k \<Rightarrow> 'a \<Rightarrow> ('k \<times> 'a list) list \<Rightarrow> ('k \<times> 'a list) list" where
  "map_get_push k x m = map (\<lambda>(k', xs). if k' = k then (k', xs @ [x]) else (k', xs)) m"

text \<open>The loop that fills \<^verbatim>\<open>patternsByCategory\<close>.\<close>

definition group_pattern ::
  "(string \<times> assignment list) list \<Rightarrow> assignment \<Rightarrow> (string \<times> assignment list) list" where
  "group_pattern m pattern =
     map_get_push (label pattern) pattern
       (if \<not> map_has m (label pattern) then map_set (label pattern) [] m else m)"

definition patternsByCategory :: "assignment list \<Rightarrow> (string \<times> assignment list) list" where
  "patternsByCategory ps = foldl group_pattern [] ps"

definition pattern_lines :: "assignment list \<Rightarrow> string" where
  "pattern_lines ps = concat (map (\<lambda>pattern. ''- `'' @ directory pattern @ ''`'' @ nl) ps)"

text \<open>The text one round of the loop over the groups appends; the round throws when
  \<^verbatim>\<open>sme\<close> is an inherited value, whose \<^verbatim>\<open>reviewers\<close> is undefined.\<close>

definition category_section :: "string \<times> assignment list \<Rightarrow> crash + string" where
  "category_section g =
     (case get_property SME_MAPPING (fst g) of
        Inherited \<Rightarrow> Inl (Uncaught ''TypeError: Cannot read properties of undefined'')
      | Own s \<Rightarrow>
          Inr (''### '' @ getCategoryIcon (fst g) @ '' '' @ description s @ nl @ nl @
               ''**Reviewers:** '' @ join '', '' (map (\<lambda>r. CHR ''@'' # r) (reviewers s)) @ nl @ nl @
               ''**Patterns:**'' @ nl @ pattern_lines (snd g) @ nl)
      | Missing \<Rightarrow>
          Inr (''### '' @ getCategoryIcon (fst g) @ '' '' @ fst g @ nl @ nl @
               ''**Patterns:**'' @ nl @ pattern_lines (snd g) @ nl))"

fun category_sections :: "string \<Rightarrow> (string \<times> assignment list) list \<Rightarrow> crash + string" where
  "category_sections comment [] = Inr comment"
| "category_sections comment (g # gs) =
     (case category_section g of
        Inl c \<Rightarrow> Inl c
      | Inr text \<Rightarrow> category_sections (comment @ text) gs)"

definition comment_header :: string where
  "comment_header =
     ''## '' @ [CHR 0xF0, CHR 0x9F, CHR 0x91, CHR 0xA5] @ '' Pattern Review Assignments'' @ nl @ nl @
     ''The following Subject Matter Experts (SMEs) have been identified for review:'' @ nl @ nl"

definition review_checklist :: string where
  "review_checklist =
     ''---'' @ nl @ nl @
     ''### '' @ [CHR 0xF0, CHR 0x9F, CHR 0x93, CHR 0x9D] @ '' Review Checklist'' @ nl @ nl @
     ''Please ensure the following before approving:'' @ nl @ nl @
     ''- [ ] Pattern follows repository structure and naming conventions'' @ nl @
     ''- [ ] `pattern.yaml` contains all required fields and valid data'' @ nl @
     ''- [ ] `README.md` provides clear implementation guidance'' @ nl @
     ''- [ ] Architecture diagram is included and clear'' @ nl @
     ''- [ ] Code examples are correct and follow best practices'' @ nl @
     ''- [ ] Security considerations are documented'' @ nl @
     ''- [ ] Pattern is categorized correctly'' @ nl @ nl @
     ''**Note:** Automated validation has already checked basic requirements. '' @
     ''Please focus on technical accuracy, completeness, and alignment with organizational standards.'' @ nl"

text \<open>\<^verbatim>\<open>generateComment\<close> reads the state and does not change it; \<open>None\<close> is
  \<^verbatim>\<open>null\<close>.\<close>

definition generateComment :: "notifier \<Rightarrow> crash + string option" where
  "generateComment n =
     (if patterns n = [] then Inr None
      else
        case category_sections comment_header (patternsByCategory (patterns n)) of
          Inl c \<Rightarrow> Inl c
        | Inr comment \<Rightarrow> Inr (Some (comment @ review_checklist)))"

subsection \<open>The output of a run\<close>

text \<open>
  \<^verbatim>\<open>generateOutput\<close> returns the reviewers, the assignments and the comment. When the
  variable \<^verbatim>\<open>GITHUB_OUTPUT\<close> is set it first appends to that file the same list of
  reviewers, its length and, unless it is \<^verbatim>\<open>null\<close>, the comment of a first call of
  \<^verbatim>\<open>generateComment\<close>; \<open>pr_comment\<close> is the comment written there.
\<close>

record run_output =
  out_reviewers :: "string list"
  out_patterns :: "assignment list"
  out_comment :: "string option"
  pr_comment :: "string option"

definition generateOutput :: "bool \<Rightarrow> notifier \<Rightarrow> crash + run_output" where
  "generateOutput github_output n =
     (let reviewersList = allReviewers n in
      case (if github_output then generateComment n else Inr None) of
        Inl c \<Rightarrow> Inl c
      | Inr written \<Rightarrow>
          (case generateComment n of
             Inl c \<Rightarrow> Inl c
           | Inr comment \<Rightarrow>
               Inr \<lparr>out_reviewers = reviewersList, out_patterns = patterns n,
                    out_comment = comment, pr_comment = written\<rparr>))"

text \<open>\<^verbatim>\<open>run\<close> on a new notifier.\<close>

definition run :: "libs \<Rightarrow> filesystem \<Rightarrow> bool \<Rightarrow> string list \<Rightarrow> crash + run_output" where
  "run L fs github_output patternDirs =
     generateOutput github_output (processPatterns L fs patternDirs new_notifier)"

section \<open>The change detector\<close>

text \<open>
  \<^verbatim>\<open>detect-changed-patterns.sh\<close> is a bash script under \<^verbatim>\<open>set -e\<close>. What it takes from
  its surroundings is collected in one record: the value of the variable
  \<^verbatim>\<open>GITHUB_OUTPUT\<close>, if set; whether the shell can open a file for appending; the test
  \<^verbatim>\<open>[ -d "$dir" ]\<close> in the working tree; the words that \<^verbatim>\<open>echo --help\<close> and
  \<^verbatim>\<open>echo --version\<close> of the system print; and the status of the \<^verbatim>\<open>jq\<close> pipeline
  (0 when it succeeds, 127 when \<^verbatim>\<open>jq\<close> is not installed). The tools are taken to be those
  of the hosted runner (git with its default configuration, GNU \<^verbatim>\<open>grep\<close>, \<^verbatim>\<open>cut\<close>,
  \<^verbatim>\<open>sort\<close>, \<^verbatim>\<open>xargs\<close> and \<^verbatim>\<open>echo\<close>, the C locale).
\<close>

record shell_env =
  GITHUB_OUTPUT :: "string option"
  can_append :: "string \<Rightarrow> bool"
  dir_exists :: "string \<Rightarrow> bool"
  echo_help :: "string list"
  echo_version :: "string list"
  jq_status :: nat

subsection \<open>The lines that git prints\<close>

text \<open>
  \<^verbatim>\<open>git diff --name-only\<close> prints one line for each differing path. A path with a
  control character, a double quote, a backslash or a byte from 127 on is printed in double
  quotes, each such character written as a backslash and a letter, the character itself or
  three octal digits; any other path is printed as it is.
\<close>

definition git_quoted_char :: "char \<Rightarrow> bool" where
  "git_quoted_char c =
     (of_char c < (32::nat) \<or> (127::nat) \<le> of_char c \<or> c = CHR 0x22 \<or> c = CHR 0x5C)"

definition octal3 :: "char \<Rightarrow> string" where
  "octal3 c =
     [char_of (48 + (of_char c :: nat) div 64 mod 4),
      char_of (48 + (of_char c :: nat) div 8 mod 8),
      char_of (48 + (of_char c :: nat) mod 8)]"

definition c_escape :: "char \<Rightarrow> string" where
  "c_escape c =
     (if \<not> git_quoted_char c then [c]
      else CHR 0x5C #
        (if c = CHR 0x07 then ''a'' else if c = CHR 0x08 then ''b''
         else if c = CHR 0x09 then ''t'' else if c = CHR 0x0A then ''n''
         else if c = CHR 0x0B then ''v'' else if c = CHR 0x0C then ''f''
         else if c = CHR 0x0D then ''r''
         else if c = CHR 0x22 \<or> c = CHR 0x5C then [c]
         else octal3 c))"

definition git_print :: "string \<Rightarrow> string" where
  "git_print path =
     (if list_ex git_quoted_char path
      then [CHR 0x22] @ concat (map c_escape path) @ [CHR 0x22]
      else path)"

text \<open>The lines of the variable \<^verbatim>\<open>CHANGED_FILES\<close>, for the differing paths.\<close>

definition CHANGED_FILES :: "string list \<Rightarrow> string list" where
  "CHANGED_FILES paths = map git_print paths"

subsection \<open>The pipeline\<close>

text \<open>
  \<^verbatim>\<open>echo\<close>, the builtin of the shell as well as the program, takes leading arguments made
  of a dash and letters among \<^verbatim>\<open>n\<close>, \<^verbatim>\<open>e\<close>, \<^verbatim>\<open>E\<close> for options.
  \<^verbatim>\<open>echo "$CHANGED_FILES"\<close> has one argument, the whole text: it prints the lines, one
  empty line when there is no changed file, and, when the only line is such an option, nothing
  (with \<^verbatim>\<open>n\<close>) or one empty line.
\<close>

definition echo_option :: "string \<Rightarrow> bool" where
  "echo_option w =
     (case w of
        [] \<Rightarrow> False
      | c # rest \<Rightarrow> c = CHR ''-'' \<and> rest \<noteq> [] \<and> list_all (\<lambda>x. x \<in> set ''neE'') rest)"

definition echo_lines :: "string list \<Rightarrow> string list" where
  "echo_lines ls =
     (case ls of
        [] \<Rightarrow> [[]]
      | [l] \<Rightarrow> if echo_option l then (if CHR ''n'' \<in> set l then [] else [[]]) else [l]
      | l # l' # rest \<Rightarrow> ls)"

text \<open>Each \<^verbatim>\<open>grep -v\<close> of the script has an anchored literal pattern: it drops the lines
  that begin with, or are, a fixed text.\<close>

definition grep_v_prefix :: "string \<Rightarrow> string list \<Rightarrow> string list" where
  "grep_v_prefix p ls = filter (\<lambda>l. \<not> prefix p l) ls"

definition grep_v_line :: "string \<Rightarrow> string list \<Rightarrow> string list" where
  "grep_v_line p ls = filter (\<lambda>l. l \<noteq> p) ls"

text \<open>\<^verbatim>\<open>cut -d'/' -f1\<close>: the text before the first separator, or the whole line.\<close>

definition cut_f1 :: "string \<Rightarrow> string" where
  "cut_f1 l = takeWhile (\<lambda>c. c \<noteq> CHR ''/'') l"

text \<open>\<^verbatim>\<open>sort -u\<close>, in the order of the bytes.\<close>

definition sort_u :: "string list \<Rightarrow> string list" where
  "sort_u ls = remdups_adj (sort ls)"

text \<open>The lines of the variable \<^verbatim>\<open>PATTERN_DIRS\<close>, from the lines of
  \<^verbatim>\<open>CHANGED_FILES\<close>.\<close>

definition PATTERN_DIRS :: "string list \<Rightarrow> string list" where
  "PATTERN_DIRS changed_files =
     grep_v_line []
       (sort_u
         (map cut_f1
           (grep_v_prefix ''.''
             (grep_v_prefix ''LICENSE''
               (grep_v_line ''README.md''
                 (grep_v_prefix ''pattern-template/''
                   (grep_v_line ''categories.config.json''
                     (grep_v_prefix ''schemas/''
                       (grep_v_prefix ''.github/''
                         (echo_lines changed_files))))))))))"

subsection \<open>The loop over the directories\<close>

text \<open>
  \<^verbatim>\<open>for dir in $PATTERN_DIRS\<close> expands the variable unquoted: the shell splits it at
  blanks, tabs and newlines. The first argument of \<open>split_words\<close> is the word being read,
  reversed. The shell also expands file name patterns there, and \<^verbatim>\<open>xargs\<close> later reads
  quotes and backslashes: words with one of the characters of \<open>shell_special\<close> that is
  no separator are outside this model, and the statements about the script exclude them.
\<close>

definition is_ifs :: "char \<Rightarrow> bool" where
  "is_ifs c = (c = CHR '' '' \<or> c = CHR 0x09 \<or> c = CHR 0x0A)"

fun split_words :: "string \<Rightarrow> string \<Rightarrow> string list" where
  "split_words w [] = (if w = [] then [] else [rev w])"
| "split_words w (c # cs) =
     (if is_ifs c then (if w = [] then split_words [] cs else rev w # split_words [] cs)
      else split_words (c # w) cs)"

definition shell_special :: "char \<Rightarrow> bool" where
  "shell_special c =
     (is_ifs c \<or> c = CHR ''*'' \<or> c = CHR ''?'' \<or> c = CHR ''['' \<or>
      c = CHR 0x27 \<or> c = CHR 0x22 \<or> c = CHR 0x5C)"

definition for_words :: "string list \<Rightarrow> string list" where
  "for_words ls = concat (map (split_words []) ls)"

text \<open>The words that the loop collects: the actual directories other than \<^verbatim>\<open>.\<close>\<close>

definition collected_dirs :: "shell_env \<Rightarrow> string list \<Rightarrow> string list" where
  "collected_dirs env changed_files =
     filter (\<lambda>dir. dir_exists env dir \<and> dir \<noteq> ''.'') (for_words (PATTERN_DIRS changed_files))"

text \<open>
  \<^verbatim>\<open>echo "$VALID_PATTERN_DIRS" | xargs\<close>: the text ends with a blank, so the builtin
  prints it as it is; \<^verbatim>\<open>xargs\<close> splits it into the words again and runs \<^verbatim>\<open>echo\<close>, the
  program, once on all of them (the list is taken to fit one command line). The program
  drops its leading options and prints the other words; with \<^verbatim>\<open>--help\<close> or
  \<^verbatim>\<open>--version\<close> as its only argument it prints its help or version text instead.
\<close>

definition xargs_echo :: "shell_env \<Rightarrow> string list \<Rightarrow> string list" where
  "xargs_echo env ws =
     (if ws = [''--help''] then echo_help env
      else if ws = [''--version''] then echo_version env
      else dropWhile echo_option ws)"

text \<open>The words of the variable \<^verbatim>\<open>VALID_PATTERN_DIRS\<close> after that line.\<close>

definition VALID_PATTERN_DIRS :: "shell_env \<Rightarrow> string list \<Rightarrow> string list" where
  "VALID_PATTERN_DIRS env changed_files = xargs_echo env (collected_dirs env changed_files)"

subsection \<open>The run\<close>

text \<open>
  \<^verbatim>\<open>>> $GITHUB_OUTPUT\<close> expands the variable unquoted: the redirection fails unless the
  value is exactly one word, and unless that file can be opened for appending. A command
  whose redirection fails has status 1.
\<close>

definition append_output :: "shell_env \<Rightarrow> bool" where
  "append_output env =
     (case GITHUB_OUTPUT env of
        None \<Rightarrow> False
      | Some v \<Rightarrow>
          (case split_words [] v of
             [] \<Rightarrow> False
           | [f] \<Rightarrow> can_append env f
           | f # f' # rest \<Rightarrow> False))"

text \<open>
  A run of the script on the outcome of \<^verbatim>\<open>git fetch\<close> and \<^verbatim>\<open>git diff\<close>: the status of
  the failing command (\<open>Inl\<close>), or the differing paths. \<^verbatim>\<open>set -e\<close> ends the script with
  the status of the first command that fails (\<open>Inl\<close>); otherwise it writes the list and the
  count and ends with status 0 on each of its three ways out.
\<close>

record detection =
  changed_patterns :: "string list"
  pattern_count :: nat
  exit_status :: nat

definition detect_changed_patterns :: "shell_env \<Rightarrow> nat + string list \<Rightarrow> nat + detection" where
  "detect_changed_patterns env diff =
     (case diff of
        Inl status \<Rightarrow> Inl status
      | Inr paths \<Rightarrow>
          if PATTERN_DIRS (CHANGED_FILES paths) = []
          then (if append_output env
                then Inr \<lparr>changed_patterns = [], pattern_count = 0, exit_status = 0\<rparr>
                else Inl 1)
          else if VALID_PATTERN_DIRS env (CHANGED_FILES paths) = []
          then (if append_output env
                then Inr \<lparr>changed_patterns = [], pattern_count = 0, exit_status = 0\<rparr>
                else Inl 1)
          else if \<not> append_output env then Inl 1
          else if jq_status env \<noteq> 0 then Inl (jq_status env)
          else Inr \<lparr>changed_patterns = VALID_PATTERN_DIRS env (CHANGED_FILES paths),
                     pattern_count = length (VALID_PATTERN_DIRS env (CHANGED_FILES paths)),
                     exit_status = 0\<rparr>)"

section \<open>Notions used in the statements\<close>

text \<open>
  The paths a parsed record refers to, in the order in which \<^verbatim>\<open>validatePatternYaml\<close>
  looks at them: the diagram (when the field is a non-empty text), then the file of each
  code snippet. \<open>dangling\<close> keeps those that do not exist under the entry directory.
\<close>

datatype reference = Diagram string | Snippet string

fun ref_path :: "reference \<Rightarrow> string" where
  "ref_path (Diagram p) = p"
| "ref_path (Snippet p) = p"

fun reference_error :: "reference \<Rightarrow> string" where
  "reference_error (Diagram p) = ''Architecture diagram not found: '' @ p"
| "reference_error (Snippet p) = ''Code snippet file not found: '' @ p"

definition references :: "pattern_data \<Rightarrow> reference list" where
  "references d =
     (case architecture_diagram d of
        None \<Rightarrow> []
      | Some p \<Rightarrow> if p = [] then [] else [Diagram p]) @
     (case implementation d of
        None \<Rightarrow> []
      | Some impl \<Rightarrow>
          (case code_snippets impl of
             None \<Rightarrow> []
           | Some snippets \<Rightarrow> map (\<lambda>s. Snippet (snippet_file s)) snippets))"

definition dangling :: "filesystem \<Rightarrow> string \<Rightarrow> pattern_data \<Rightarrow> reference list" where
  "dangling fs patternDir d =
     filter (\<lambda>r. \<not> existsSync fs patternDir (ref_path r)) (references d)"

text \<open>The element that one round of \<^verbatim>\<open>processPatterns\<close> pushes onto
  \<^verbatim>\<open>this.patterns\<close> for a directory.\<close>

definition assignment_for :: "libs \<Rightarrow> filesystem \<Rightarrow> string \<Rightarrow> assignment" where
  "assignment_for L fs patternDir =
     \<lparr>directory = patternDir,
      label = (case getPatternCategory L fs patternDir of None \<Rightarrow> ''unknown'' | Some c \<Rightarrow> c),
      assigned = getReviewersForCategory (getPatternCategory L fs patternDir)\<rparr>"

text \<open>The union of lists of reviewers in the order of first appearance, without
  duplicates, starting from the reviewers already known.\<close>

definition ordered_union :: "'a list \<Rightarrow> 'a list list \<Rightarrow> 'a list" where
  "ordered_union known xss = foldl (\<lambda>acc x. set_add x acc) known (concat xss)"

text \<open>The lines that the seven \<^verbatim>\<open>grep -v\<close> of the change detector drop, as one test on
  a path.\<close>

definition excluded_path :: "string \<Rightarrow> bool" where
  "excluded_path p =
     (prefix ''.github/'' p \<or> prefix ''schemas/'' p \<or> p = ''categories.config.json'' \<or>
      prefix ''pattern-template/'' p \<or> p = ''README.md'' \<or> prefix ''LICENSE'' p \<or>
      prefix ''.'' p)"

text \<open>
  Change detection in the words of the specification: the first segments of the paths,
  without the empty ones, without those that a text of the denylist is a prefix of, without
  those that are no directory; deduplicated and sorted. The denylist is a parameter there;
  the two lists below are the texts of the script's patterns as they stand, and the same
  texts as names of segments.
\<close>

definition changed_entries_spec :: "string list \<Rightarrow> (string \<Rightarrow> bool) \<Rightarrow> string list \<Rightarrow> string list" where
  "changed_entries_spec denylist is_dir paths =
     sort (remdups
       (filter is_dir
         (filter (\<lambda>seg. \<not> (\<exists>p \<in> set denylist. prefix p seg))
           (filter (\<lambda>seg. seg \<noteq> []) (map cut_f1 paths)))))"

definition denylist_patterns :: "string list" where
  "denylist_patterns =
     [''.github/'', ''schemas/'', ''categories.config.json'', ''pattern-template/'',
      ''README.md'', ''LICENSE'', ''.'']"

definition denylist_names :: "string list" where
  "denylist_names =
     [''.github'', ''schemas'', ''categories.config.json'', ''pattern-template'',
      ''README.md'', ''LICENSE'', ''.'']"

section \<open>A sample repository\<close>

text \<open>
  Concrete inputs for the statements below: a repository \<^verbatim>\<open>/repo\<close> with the schema and
  five entries, and an empty directory \<^verbatim>\<open>/bare\<close> without schema. The YAML parser is given
  by its results on the five metadata texts; the schema is the empty schema, which every
  document satisfies.
\<close>

definition yaml_malformed :: string where
  "yaml_malformed = ''title: [unclosed''"

definition yaml_sample :: string where
  "yaml_sample = ''category: automation'' @ nl @ ''architecture_diagram: diagrams/architecture.png''"

definition yaml_odd_category :: string where
  "yaml_odd_category = ''category: foo''"

definition yaml_one_dangling :: string where
  "yaml_one_dangling =
     ''category: security'' @ nl @ ''implementation:'' @ nl @ ''  code_snippets:'' @ nl @
     ''    - file: implementation/missing.js''"

definition yaml_two_dangling :: string where
  "yaml_two_dangling =
     ''architecture_diagram: diagrams/none.png'' @ nl @ ''implementation:'' @ nl @
     ''  code_snippets:'' @ nl @ ''    - file: implementation/missing.js''"

definition doc_sample :: pattern_data where
  "doc_sample =
     \<lparr>category = Some ''automation'',
      architecture_diagram = Some ''diagrams/architecture.png'',
      implementation = None\<rparr>"

definition doc_odd_category :: pattern_data where
  "doc_odd_category =
     \<lparr>category = Some ''foo'', architecture_diagram = None, implementation = None\<rparr>"

definition doc_one_dangling :: pattern_data where
  "doc_one_dangling =
     \<lparr>category = Some ''security'', architecture_diagram = None,
      implementation =
        Some \<lparr>code_snippets = Some [\<lparr>snippet_file = ''implementation/missing.js''\<rparr>]\<rparr>\<rparr>"

definition doc_two_dangling :: pattern_data where
  "doc_two_dangling =
     \<lparr>category = None, architecture_diagram = Some ''diagrams/none.png'',
      implementation =
        Some \<lparr>code_snippets = Some [\<lparr>snippet_file = ''implementation/missing.js''\<rparr>]\<rparr>\<rparr>"

definition sample_libs :: libs where
  "sample_libs =
     \<lparr>yaml_load = (\<lambda>t.
        if t = yaml_malformed
        then Inl ''unexpected end of the stream within a flow collection''
        else if t = yaml_sample then Inr (Doc doc_sample)
        else if t = yaml_odd_category then Inr (Doc doc_odd_category)
        else if t = yaml_one_dangling then Inr (Doc doc_one_dangling)
        else if t = yaml_two_dangling then Inr (Doc doc_two_dangling)
        else Inr Undefined),
      json_parse_error = (\<lambda>t. if t = ''{}'' then None else Some ''Unexpected token''),
      ajv_compile = (\<lambda>t. Some (\<lambda>d. []))\<rparr>"

definition readme_full :: string where
  "readme_full =
     ''# Sample pattern'' @ nl @
     ''## Overview'' @ nl @ ''A queue feeds a function.'' @ nl @
     ''## Architecture'' @ nl @ ''A queue, a function, a dead letter queue.'' @ nl @
     ''## Prerequisites'' @ nl @ ''An account.'' @ nl @
     ''## Implementation'' @ nl @ ''Deploy the template.'' @ nl"

definition readme_partial :: string where
  "readme_partial =
     ''# Sample pattern'' @ nl @
     ''## OVERVIEW'' @ nl @ ''A queue feeds a function, and failures are kept for a retry.'' @ nl @
     ''## Architecture'' @ nl @ ''A queue, a function, a dead letter queue.'' @ nl"

definition readme_short :: string where
  "readme_short = ''# Draft''"

definition entry_files :: "string \<Rightarrow> string \<Rightarrow> string \<Rightarrow> node option" where
  "entry_files yaml readme r =
     (if r = ''pattern.yaml'' then Some (File yaml)
      else if r = ''README.md'' then Some (File readme)
      else if r = ''diagrams'' then Some (Dir 4096)
      else if r = ''diagrams/architecture.png'' then Some (File ''PNG'')
      else None)"

definition sample_fs :: filesystem where
  "sample_fs d r =
     (if d = ''/repo''
      then (if r = ''schemas/pattern-schema.json'' then Some (File ''{}'') else None)
      else if d = ''/repo/sample-pattern'' then entry_files yaml_sample readme_full r
      else if d = ''/repo/malformed-entry'' then entry_files yaml_malformed readme_short r
      else if d = ''/repo/odd-category'' then entry_files yaml_odd_category readme_partial r
      else if d = ''/repo/one-dangling'' then entry_files yaml_one_dangling readme_full r
      else if d = ''/repo/two-dangling'' then entry_files yaml_two_dangling readme_full r
      else None)"

text \<open>The surroundings of the change detector on the hosted runner: the output file is
  set and writable, \<^verbatim>\<open>jq\<close> works; the directories are those named.\<close>

definition runner_env :: "string list \<Rightarrow> shell_env" where
  "runner_env dirs =
     \<lparr>GITHUB_OUTPUT = Some ''/home/runner/work/_temp/set_output'',
      can_append = (\<lambda>f. True),
      dir_exists = (\<lambda>d. d \<in> set dirs),
      echo_help = [''Usage:'', ''echo''],
      echo_version = [''echo'', ''(GNU'', ''coreutils)''],
      jq_status = 0\<rparr>"


section \<open>Verification: the naming check\<close>

text \<open>The executable test agrees with the meaning of the regular expression.\<close>

inductive_simps matches_Never: "matches Never w"
inductive_simps matches_Empty: "matches Empty w"
inductive_simps matches_Class: "matches (Class P) w"
inductive_simps matches_Seq: "matches (Seq r s) w"
inductive_simps matches_Alt: "matches (Alt r s) w"
inductive_simps matches_Plus: "matches (Plus r) w"

lemma nullable_matches: "nullable r \<longleftrightarrow> matches r []"
  by (induction r) (auto simp: matches_Never matches_Empty matches_Class matches_Seq
      matches_Alt matches_Plus intro: m_Star0)

lemma star_cons:
  assumes "matches q w" "q = Star r" "w = c # s"
  shows "\<exists>u v. s = u @ v \<and> matches r (c # u) \<and> matches (Star r) v"
  using assms
proof (induction q w arbitrary: s rule: matches.induct)
  case (m_StarS r' u v)
  show ?case
  proof (cases u)
    case Nil
    with m_StarS show ?thesis by simp
  next
    case (Cons a u')
    with m_StarS have "s = u' @ v" "matches r (c # u')" "matches (Star r) v" by auto
    then show ?thesis by blast
  qed
qed simp_all

lemma star_cons_iff:
  "matches (Star r) (c # s) \<longleftrightarrow> (\<exists>u v. s = u @ v \<and> matches r (c # u) \<and> matches (Star r) v)"
proof
  assume "matches (Star r) (c # s)"
  then show "\<exists>u v. s = u @ v \<and> matches r (c # u) \<and> matches (Star r) v"
    using star_cons by blast
next
  assume "\<exists>u v. s = u @ v \<and> matches r (c # u) \<and> matches (Star r) v"
  then obtain u v where "s = u @ v" "matches r (c # u)" "matches (Star r) v" by blast
  then show "matches (Star r) (c # s)"
    using m_StarS [of r "c # u" v] by simp
qed

lemma seq_cons_iff:
  "matches (Seq r1 r2) (c # s) \<longleftrightarrow>
     (\<exists>u v. s = u @ v \<and> matches r1 (c # u) \<and> matches r2 v) \<or>
     (matches r1 [] \<and> matches r2 (c # s))"
proof
  assume "matches (Seq r1 r2) (c # s)"
  then obtain u v where uv: "c # s = u @ v" "matches r1 u" "matches r2 v"
    by (auto simp: matches_Seq)
  show "(\<exists>u v. s = u @ v \<and> matches r1 (c # u) \<and> matches r2 v) \<or>
     (matches r1 [] \<and> matches r2 (c # s))"
  proof (cases u)
    case Nil
    with uv show ?thesis by simp
  next
    case (Cons a u')
    with uv have "s = u' @ v" "matches r1 (c # u')" by auto
    with uv show ?thesis by blast
  qed
next
  assume "(\<exists>u v. s = u @ v \<and> matches r1 (c # u) \<and> matches r2 v) \<or>
     (matches r1 [] \<and> matches r2 (c # s))"
  then show "matches (Seq r1 r2) (c # s)"
  proof
    assume "\<exists>u v. s = u @ v \<and> matches r1 (c # u) \<and> matches r2 v"
    then obtain u v where "s = u @ v" "matches r1 (c # u)" "matches r2 v" by blast
    then show ?thesis using m_Seq [of r1 "c # u" r2 v] by simp
  next
    assume "matches r1 [] \<and> matches r2 (c # s)"
    then show ?thesis using m_Seq [of r1 "[]" r2 "c # s"] by simp
  qed
qed

lemma plus_cons_iff: "matches (Plus r) (c # s) \<longleftrightarrow> matches (Star r) (c # s)"
proof
  assume "matches (Plus r) (c # s)"
  then show "matches (Star r) (c # s)"
    by (auto simp: matches_Plus intro: m_StarS)
next
  assume "matches (Star r) (c # s)"
  then obtain u v where "s = u @ v" "matches r (c # u)" "matches (Star r) v"
    using star_cons by blast
  then show "matches (Plus r) (c # s)"
    using m_Plus [of r "c # u" v] by simp
qed

lemma deriv_matches: "matches (deriv r c) s \<longleftrightarrow> matches r (c # s)"
proof (induction r arbitrary: s)
  case Never
  show ?case by (simp add: matches_Never)
next
  case Empty
  show ?case by (simp add: matches_Never matches_Empty)
next
  case (Class P)
  show ?case by (simp add: matches_Never matches_Empty matches_Class)
next
  case (Seq r1 r2)
  show ?case
    unfolding seq_cons_iff
    by (simp add: matches_Seq matches_Alt nullable_matches Seq)
next
  case (Alt r1 r2)
  then show ?case by (simp add: matches_Alt)
next
  case (Star r)
  then show ?case by (simp add: matches_Seq star_cons_iff)
next
  case (Plus r)
  then show ?case by (simp add: matches_Seq plus_cons_iff star_cons_iff)
qed

lemma regex_test_matches: "regex_test r s \<longleftrightarrow> matches r s"
  unfolding regex_test_def
  by (induction s arbitrary: r) (simp_all add: nullable_matches deriv_matches)

text \<open>The literal of the naming check, the scanner and the rule in words describe the same
  names.\<close>

lemma hyphen_not_alnum: "\<not> lower_alnum (CHR ''-'')"
  by (simp add: lower_alnum_def)

lemma seq_empty_left: "matches (Seq (Seq Empty r) s) w \<longleftrightarrow> matches (Seq r s) w"
  by (auto simp: matches_Seq matches_Empty)

lemma seq_never_left: "\<not> matches (Seq (Seq Never r) s) w"
  by (simp add: matches_Seq matches_Never)

lemma kebab_scan_matches:
  "(kebab_scan False s \<longleftrightarrow> matches kebabCaseRegex s) \<and>
   (kebab_scan True s \<longleftrightarrow>
      matches (Seq (Star (Class lower_alnum))
                (Star (Seq (Class is_hyphen) (Plus (Class lower_alnum))))) s)"
proof (induction s)
  case Nil
  have "\<not> matches kebabCaseRegex []"
    by (simp add: kebabCaseRegex_def flip: nullable_matches)
  moreover have "matches (Seq (Star (Class lower_alnum))
                (Star (Seq (Class is_hyphen) (Plus (Class lower_alnum))))) []"
    by (simp flip: nullable_matches)
  ultimately show ?case by simp
next
  case (Cons c cs)
  let ?T = "Star (Seq (Class is_hyphen) (Plus (Class lower_alnum)))"
  let ?M = "Seq (Star (Class lower_alnum)) ?T"
  have K: "matches kebabCaseRegex (c # cs) \<longleftrightarrow> lower_alnum c \<and> matches ?M cs"
    unfolding kebabCaseRegex_def
    by (simp add: seq_empty_left seq_never_left flip: deriv_matches)
  have M: "matches ?M (c # cs) \<longleftrightarrow>
             (lower_alnum c \<and> matches ?M cs) \<or> (c = CHR ''-'' \<and> matches kebabCaseRegex cs)"
    unfolding kebabCaseRegex_def
    by (simp add: matches_Alt seq_empty_left seq_never_left is_hyphen_def flip: deriv_matches)
  from Cons K M show ?case
    by (auto simp: hyphen_not_alnum)
qed

lemma kebab_scan_props:
  "kebab_scan b s \<longleftrightarrow>
     (\<forall>c \<in> set s. lower_alnum c \<or> c = CHR ''-'') \<and>
     (s = [] \<longrightarrow> b) \<and>
     (s \<noteq> [] \<longrightarrow> last s \<noteq> CHR ''-'' \<and> (hd s = CHR ''-'' \<longrightarrow> b)) \<and>
     \<not> sublist ''--'' s"
proof (induction s arbitrary: b)
  case Nil
  show ?case by simp
next
  case (Cons c cs)
  have sub: "sublist ''--'' (c # cs) \<longleftrightarrow> (c = CHR ''-'' \<and> cs \<noteq> [] \<and> hd cs = CHR ''-'') \<or> sublist ''--'' cs"
    by (cases cs) (auto simp: sublist_Cons_right)
  show ?case
  proof (cases "lower_alnum c")
    case True
    then have "c \<noteq> CHR ''-''" using hyphen_not_alnum by auto
    with True Cons [of True] sub show ?thesis by auto
  next
    case False
    with Cons [of False] sub show ?thesis by (cases cs) auto
  qed
qed

lemma kebab_case_scan: "kebab_case s \<longleftrightarrow> kebab_scan False s"
  unfolding kebab_case_def kebab_scan_props by auto

lemma regex_kebab_case: "regex_test kebabCaseRegex s \<longleftrightarrow> kebab_case s"
  by (simp add: regex_test_matches kebab_case_scan kebab_scan_matches)

text \<open>
  Claim C7. The naming check passes exactly when the final segment of the directory path
  matches \<^verbatim>\<open>^[a-z0-9]+(-[a-z0-9]+)*$\<close>, that is, when it consists of lowercase
  alphanumerics separated by single hyphens; a passing name leaves the validator as it was,
  every other name adds exactly one error, the naming error. Empty names, names with an
  uppercase letter or an underscore, with a double, a leading or a trailing hyphen do not
  match.
\<close>

theorem validatePatternId_kebab_case:
  "(fst (validatePatternId patternDir v) \<longleftrightarrow> matches kebabCaseRegex (basename patternDir)) \<and>
   (fst (validatePatternId patternDir v) \<longleftrightarrow> kebab_case (basename patternDir)) \<and>
   (kebab_case (basename patternDir) \<longrightarrow> snd (validatePatternId patternDir v) = v) \<and>
   (\<not> kebab_case (basename patternDir) \<longrightarrow>
      errors (snd (validatePatternId patternDir v)) =
        errors v @ [naming_error (basename patternDir)] \<and>
      warnings (snd (validatePatternId patternDir v)) = warnings v) \<and>
   (basename patternDir = [] \<or>
    (\<exists>c \<in> set (basename patternDir). CHR ''A'' \<le> c \<and> c \<le> CHR ''Z'') \<or>
    CHR ''_'' \<in> set (basename patternDir) \<or>
    sublist ''--'' (basename patternDir) \<or>
    hd (basename patternDir) = CHR ''-'' \<or>
    last (basename patternDir) = CHR ''-'' \<longrightarrow> \<not> kebab_case (basename patternDir))"
proof -
  let ?name = "basename patternDir"
  have upper: "\<not> lower_alnum c \<and> c \<noteq> CHR ''-''" if "CHR ''A'' \<le> c" "c \<le> CHR ''Z''" for c
    using that by (auto simp: lower_alnum_def less_eq_char_def)
  have under: "\<not> lower_alnum (CHR ''_'')"
    by (simp add: lower_alnum_def)
  have chars: "lower_alnum c \<or> c = CHR ''-''" if "kebab_case ?name" "c \<in> set ?name" for c
    using that unfolding kebab_case_def by blast
  have rejects: "\<not> kebab_case ?name"
    if "?name = [] \<or> (\<exists>c \<in> set ?name. CHR ''A'' \<le> c \<and> c \<le> CHR ''Z'') \<or>
        CHR ''_'' \<in> set ?name \<or> sublist ''--'' ?name \<or>
        hd ?name = CHR ''-'' \<or> last ?name = CHR ''-''"
  proof
    assume k: "kebab_case ?name"
    from that consider "?name = []" | c where "c \<in> set ?name" "CHR ''A'' \<le> c" "c \<le> CHR ''Z''"
      | "CHR ''_'' \<in> set ?name" | "sublist ''--'' ?name"
      | "hd ?name = CHR ''-''" | "last ?name = CHR ''-''"
      by blast
    then show False
    proof cases
      case 1
      with k show False by (simp add: kebab_case_def)
    next
      case (2 c)
      with chars [OF k, of c] upper [of c] show False by blast
    next
      case 3
      with chars [OF k, of "CHR ''_''"] under show False by simp
    next
      case 4
      with k show False by (simp add: kebab_case_def)
    next
      case 5
      with k show False by (simp add: kebab_case_def)
    next
      case 6
      with k show False by (simp add: kebab_case_def)
    qed
  qed
  show ?thesis
    using rejects
    by (auto simp: validatePatternId_def Let_def error_def regex_kebab_case
             simp flip: regex_test_matches)
qed

theorem validatePatternId_kebab_case_witness:
  "kebab_case ''lambda-sqs-processing'' \<and>
   validatePatternId ''/repo/lambda-sqs-processing/'' new_validator = (True, new_validator) \<and>
   \<not> kebab_case ''My_Pattern'' \<and>
   errors (snd (validatePatternId ''/repo/My_Pattern'' new_validator)) = [naming_error ''My_Pattern'']"
proof -
  have b1: "basename ''/repo/lambda-sqs-processing/'' = ''lambda-sqs-processing''"
    by (simp add: basename_def)
  have b2: "basename ''/repo/My_Pattern'' = ''My_Pattern''"
    by (simp add: basename_def)
  have k1: "kebab_case ''lambda-sqs-processing''"
    by (simp add: kebab_case_def lower_alnum_def less_eq_char_def sublist_Cons_right)
  have k2: "\<not> kebab_case ''My_Pattern''"
    by (simp add: kebab_case_def lower_alnum_def less_eq_char_def)
  show ?thesis
    using validatePatternId_kebab_case [of "''/repo/lambda-sqs-processing/''" new_validator]
      validatePatternId_kebab_case [of "''/repo/My_Pattern''" new_validator] k1 k2
    by (auto simp: b1 b2 prod_eq_iff new_validator_def)
qed

section \<open>Verification: the validator\<close>

lemma validateReadme_errors:
  "validateReadme fs patternDir v = Inr (ok, v') \<Longrightarrow> errors v' = errors v"
  by (auto simp: validateReadme_def warning_def split: if_splits sum.splits)

lemma summary_code_errors: "summary_code v = (if errors v = [] then 0 else 1)"
  by (simp add: summary_code_def)

lemma validate_steps:
  "validate L fs patternDir repoRoot v =
     (case validatePatternYaml L fs patternDir repoRoot
             (snd (validateRequiredFiles fs patternDir (snd (validatePatternId patternDir v)))) of
        Inl c \<Rightarrow> Inl c
      | Inr (yamlValid, v3) \<Rightarrow>
          (case validateReadme fs patternDir v3 of
             Inl c \<Rightarrow> Inl c
           | Inr (readmeValid, v4) \<Rightarrow> Inr (if errors v4 = [] then 0 else 1, v4)))"
  by (simp add: validate_def Let_def summary_code_errors split: sum.splits prod.splits)

text \<open>
  Claim C1, as amended. When the metadata file exists and reading or parsing it fails, the
  metadata step records exactly one error, the parse error, and nothing about references;
  the run ends with status 1 and the verdict FAIL. The documentation check is not skipped:
  it runs on the state the metadata step left, and its warnings are part of the result.
\<close>

theorem validate_unparseable_metadata:
  assumes "existsSync fs patternDir ''pattern.yaml''"
    and "load_pattern_yaml L fs patternDir = Inl msg"
  shows "let v2 = snd (validateRequiredFiles fs patternDir (snd (validatePatternId patternDir v)));
             v3 = error (''Failed to parse pattern.yaml: '' @ msg) v2
         in validatePatternYaml L fs patternDir repoRoot v2 = Inr (False, v3) \<and>
            errors v3 = errors v2 @ [''Failed to parse pattern.yaml: '' @ msg] \<and>
            (case validateReadme fs patternDir v3 of
               Inl c \<Rightarrow> validate L fs patternDir repoRoot v = Inl c
             | Inr (readmeValid, v4) \<Rightarrow>
                 validate L fs patternDir repoRoot v = Inr (1, v4) \<and>
                 errors v4 = errors v3 \<and> verdict_fail v4)"
proof -
  define v2 where "v2 = snd (validateRequiredFiles fs patternDir (snd (validatePatternId patternDir v)))"
  define v3 where "v3 = error (''Failed to parse pattern.yaml: '' @ msg) v2"
  have step3: "validatePatternYaml L fs patternDir repoRoot v2 = Inr (False, v3)"
    using assms by (simp add: validatePatternYaml_def v3_def)
  have errs: "errors v3 = errors v2 @ [''Failed to parse pattern.yaml: '' @ msg]"
    by (simp add: v3_def error_def)
  have rest: "case validateReadme fs patternDir v3 of
               Inl c \<Rightarrow> validate L fs patternDir repoRoot v = Inl c
             | Inr (readmeValid, v4) \<Rightarrow>
                 validate L fs patternDir repoRoot v = Inr (1, v4) \<and>
                 errors v4 = errors v3 \<and> verdict_fail v4"
  proof (cases "validateReadme fs patternDir v3")
    case (Inl c)
    then show ?thesis
      using step3 by (simp add: validate_steps flip: v2_def)
  next
    case (Inr p)
    obtain ok v4 where p: "p = (ok, v4)" by (cases p)
    from Inr p have e4: "errors v4 = errors v3"
      using validateReadme_errors by blast
    with errs have "errors v4 \<noteq> []" by simp
    with Inr p e4 step3 show ?thesis
      by (simp add: validate_steps verdict_fail_def flip: v2_def)
  qed
  from step3 errs rest show ?thesis
    unfolding Let_def v2_def v3_def by blast
qed

lemma sample_malformed_exists: "existsSync sample_fs ''/repo/malformed-entry'' ''pattern.yaml''"
  by (simp add: existsSync_def sample_fs_def entry_files_def)

lemma sample_malformed_load:
  "load_pattern_yaml sample_libs sample_fs ''/repo/malformed-entry'' =
     Inl ''unexpected end of the stream within a flow collection''"
  by (simp add: load_pattern_yaml_def readFileSync_def sample_fs_def entry_files_def sample_libs_def)

lemma sample_malformed_steps12:
  "snd (validateRequiredFiles sample_fs ''/repo/malformed-entry''
      (snd (validatePatternId ''/repo/malformed-entry'' new_validator))) = new_validator"
  by code_simp

lemma sample_malformed_readme:
  "validateReadme sample_fs ''/repo/malformed-entry'' v = Inr (True, warning too_short_warning v)"
  by (simp add: validateReadme_def existsSync_def readFileSync_def sample_fs_def entry_files_def
      readme_short_def minLength_def)

theorem validate_unparseable_metadata_witness:
  "existsSync sample_fs ''/repo/malformed-entry'' ''pattern.yaml'' \<and>
   load_pattern_yaml sample_libs sample_fs ''/repo/malformed-entry'' =
     Inl ''unexpected end of the stream within a flow collection'' \<and>
   validate sample_libs sample_fs ''/repo/malformed-entry'' ''/repo'' new_validator =
     Inr (1, \<lparr>errors = [''Failed to parse pattern.yaml: unexpected end of the stream within a flow collection''],
              warnings = [too_short_warning]\<rparr>)"
proof -
  have "validate sample_libs sample_fs ''/repo/malformed-entry'' ''/repo'' new_validator =
     Inr (1, warning too_short_warning
       (error ''Failed to parse pattern.yaml: unexpected end of the stream within a flow collection''
          new_validator))"
    using validate_unparseable_metadata [OF sample_malformed_exists sample_malformed_load,
      of new_validator "''/repo''"]
    by (simp add: Let_def sample_malformed_steps12 sample_malformed_readme)
  then show ?thesis
    using sample_malformed_exists sample_malformed_load
    by (simp add: error_def warning_def new_validator_def)
qed

text \<open>
  Claim C1 as stated fails: for the entry with unparseable metadata and a short
  documentation file, the documentation check has run and left its warning.
\<close>

theorem malformed_metadata_counterexample:
  "existsSync sample_fs ''/repo/malformed-entry'' ''pattern.yaml'' \<and>
   load_pattern_yaml sample_libs sample_fs ''/repo/malformed-entry'' =
     Inl ''unexpected end of the stream within a flow collection'' \<and>
   (case validate sample_libs sample_fs ''/repo/malformed-entry'' ''/repo'' new_validator of
      Inl c \<Rightarrow> False
    | Inr (exitCode, v) \<Rightarrow> warnings v = [too_short_warning] \<and> warnings v \<noteq> warnings new_validator)"
  by code_simp

lemma check_snippets_first_missing:
  "check_snippets fs patternDir snippets v =
     (case filter (\<lambda>s. \<not> existsSync fs patternDir (snippet_file s)) snippets of
        [] \<Rightarrow> (True, v)
      | s # rest \<Rightarrow> (False, error (''Code snippet file not found: '' @ snippet_file s) v))"
  by (induction snippets) simp_all

lemma check_references_dangling:
  "check_references fs patternDir d v =
     (case dangling fs patternDir d of
        [] \<Rightarrow> (True, v)
      | r # rest \<Rightarrow> (False, error (reference_error r) v))"
  by (auto simp: check_references_def dangling_def references_def Let_def
      check_snippets_first_missing filter_map comp_def
      split: option.splits list.splits)

text \<open>
  Claim C4, as amended. For a parsed record that satisfies the schema, the reference check
  reports the first referenced path that does not exist under the entry directory (the
  diagram before the code snippets, these in their order) with one error that names the
  field and the path, and then stops; it reports nothing when all exist. Hence a record
  with exactly one dangling reference yields exactly one reference error, and any dangling
  reference makes the verdict FAIL with status 1.
\<close>

theorem validatePatternYaml_references:
  assumes "existsSync fs patternDir ''pattern.yaml''"
    and "load_pattern_yaml L fs patternDir = Inr (Doc d)"
    and "existsSync fs repoRoot ''schemas/pattern-schema.json''"
    and "load_schema L fs repoRoot = Inr schema"
    and "ajv_compile L schema = Some validate_fn"
    and "validate_fn (Doc d) = []"
  shows "validatePatternYaml L fs patternDir repoRoot v =
           Inr (case dangling fs patternDir d of
                  [] \<Rightarrow> (True, v)
                | r # rest \<Rightarrow> (False, error (reference_error r) v)) \<and>
         (length (dangling fs patternDir d) = 1 \<longrightarrow>
            (\<exists>v'. validatePatternYaml L fs patternDir repoRoot v = Inr (False, v') \<and>
                  errors v' = errors v @ map reference_error (dangling fs patternDir d))) \<and>
         (dangling fs patternDir d \<noteq> [] \<longrightarrow>
            (case validate L fs patternDir repoRoot v of
               Inl c \<Rightarrow> True
             | Inr (exitCode, v') \<Rightarrow> exitCode = 1 \<and> verdict_fail v'))"
proof -
  have step: "validatePatternYaml L fs patternDir repoRoot w =
           Inr (case dangling fs patternDir d of
                  [] \<Rightarrow> (True, w)
                | r # rest \<Rightarrow> (False, error (reference_error r) w))" for w
    using assms by (simp add: validatePatternYaml_def check_references_dangling)
  have one: "\<exists>v'. validatePatternYaml L fs patternDir repoRoot v = Inr (False, v') \<and>
                  errors v' = errors v @ map reference_error (dangling fs patternDir d)"
    if "length (dangling fs patternDir d) = 1"
  proof -
    from that obtain r where "dangling fs patternDir d = [r]"
      by (cases "dangling fs patternDir d") auto
    then show ?thesis by (simp add: step error_def)
  qed
  have fail: "case validate L fs patternDir repoRoot v of
               Inl c \<Rightarrow> True
             | Inr (exitCode, v') \<Rightarrow> exitCode = 1 \<and> verdict_fail v'"
    if "dangling fs patternDir d \<noteq> []"
  proof -
    from that obtain r rest where "dangling fs patternDir d = r # rest"
      by (cases "dangling fs patternDir d") auto
    then show ?thesis
      by (auto simp: validate_steps step error_def verdict_fail_def
          dest: validateReadme_errors split: sum.splits)
  qed
  from step one fail show ?thesis by blast
qed


lemma sample_schema:
  "existsSync sample_fs ''/repo'' ''schemas/pattern-schema.json'' \<and>
   load_schema sample_libs sample_fs ''/repo'' = Inr ''{}'' \<and>
   ajv_compile sample_libs ''{}'' = Some (\<lambda>d. [])"
  by (simp add: existsSync_def load_schema_def readFileSync_def sample_fs_def sample_libs_def)

lemma sample_one_dangling_load:
  "existsSync sample_fs ''/repo/one-dangling'' ''pattern.yaml'' \<and>
   load_pattern_yaml sample_libs sample_fs ''/repo/one-dangling'' = Inr (Doc doc_one_dangling)"
  by code_simp

lemma sample_one_dangling:
  "dangling sample_fs ''/repo/one-dangling'' doc_one_dangling = [Snippet ''implementation/missing.js'']"
  by code_simp

theorem validatePatternYaml_references_witness:
  "dangling sample_fs ''/repo/one-dangling'' doc_one_dangling = [Snippet ''implementation/missing.js''] \<and>
   validatePatternYaml sample_libs sample_fs ''/repo/one-dangling'' ''/repo'' new_validator =
     Inr (False, \<lparr>errors = [''Code snippet file not found: implementation/missing.js''],
                  warnings = []\<rparr>)"
  using validatePatternYaml_references [of sample_fs "''/repo/one-dangling''" sample_libs
      doc_one_dangling "''/repo''" "''{}''" "\<lambda>d. []" new_validator]
    sample_schema sample_one_dangling_load sample_one_dangling
  by (simp add: error_def new_validator_def)

text \<open>
  Claim C4 as stated fails: the record of the entry below has two dangling references, a
  diagram and a code snippet, and the check reports the diagram only.
\<close>

theorem dangling_references_counterexample:
  "load_pattern_yaml sample_libs sample_fs ''/repo/two-dangling'' = Inr (Doc doc_two_dangling) \<and>
   map reference_error (dangling sample_fs ''/repo/two-dangling'' doc_two_dangling) =
     [''Architecture diagram not found: diagrams/none.png'',
      ''Code snippet file not found: implementation/missing.js''] \<and>
   validatePatternYaml sample_libs sample_fs ''/repo/two-dangling'' ''/repo'' new_validator =
     Inr (False, \<lparr>errors = [''Architecture diagram not found: diagrams/none.png''],
                  warnings = []\<rparr>)"
  by code_simp

lemma validate_never_other_code:
  "process_exit (validate L fs patternDir repoRoot v) =
     (case validate L fs patternDir repoRoot v of
        Inl c \<Rightarrow> 1
      | Inr (exitCode, v') \<Rightarrow> if errors v' = [] then 0 else 1)"
  by (auto simp: process_exit_def validate_steps split: sum.splits)

text \<open>
  Claim C5, as amended. The process ends with status 0 when no error was recorded (warnings
  do not count) and with status 1 when an error was recorded or an exception escaped; there
  is no other status. A missing schema file is recorded as one more error of the entry being
  validated, and the status is 1 as for any other error.
\<close>

theorem validate_exit_code:
  "(case validate L fs patternDir repoRoot v of
      Inl c \<Rightarrow> process_exit (validate L fs patternDir repoRoot v) = 1
    | Inr (exitCode, v') \<Rightarrow>
        process_exit (validate L fs patternDir repoRoot v) = exitCode \<and>
        (verdict_fail v' \<longrightarrow> exitCode = 1) \<and> (\<not> verdict_fail v' \<longrightarrow> exitCode = 0)) \<and>
   process_exit (validate L fs patternDir repoRoot v) \<le> 1 \<and>
   (existsSync fs patternDir ''pattern.yaml'' \<and>
    (\<exists>doc. load_pattern_yaml L fs patternDir = Inr doc) \<and>
    \<not> existsSync fs repoRoot ''schemas/pattern-schema.json'' \<longrightarrow>
      validatePatternYaml L fs patternDir repoRoot v =
        Inr (False, error ''JSON Schema not found at schemas/pattern-schema.json'' v) \<and>
      process_exit (validate L fs patternDir repoRoot v) = 1)"
proof -
  have codes: "case validate L fs patternDir repoRoot v of
      Inl c \<Rightarrow> process_exit (validate L fs patternDir repoRoot v) = 1
    | Inr (exitCode, v') \<Rightarrow>
        process_exit (validate L fs patternDir repoRoot v) = exitCode \<and>
        (verdict_fail v' \<longrightarrow> exitCode = 1) \<and> (\<not> verdict_fail v' \<longrightarrow> exitCode = 0)"
    by (auto simp: process_exit_def validate_steps verdict_fail_def split: sum.splits)
  have bound: "process_exit (validate L fs patternDir repoRoot v) \<le> 1"
    by (auto simp: validate_never_other_code split: sum.splits)
  have missing: "validatePatternYaml L fs patternDir repoRoot w =
        Inr (False, error ''JSON Schema not found at schemas/pattern-schema.json'' w)"
    if "existsSync fs patternDir ''pattern.yaml''" "load_pattern_yaml L fs patternDir = Inr doc"
      "\<not> existsSync fs repoRoot ''schemas/pattern-schema.json''" for doc w
    using that by (simp add: validatePatternYaml_def)
  have exit1: "process_exit (validate L fs patternDir repoRoot v) = 1"
    if "existsSync fs patternDir ''pattern.yaml''" "load_pattern_yaml L fs patternDir = Inr doc"
      "\<not> existsSync fs repoRoot ''schemas/pattern-schema.json''" for doc
    by (auto simp: process_exit_def validate_steps missing [OF that] error_def
        dest: validateReadme_errors split: sum.splits)
  from codes bound missing exit1 show ?thesis by blast
qed

theorem validate_exit_code_witness:
  "validate sample_libs sample_fs ''/repo/sample-pattern'' ''/repo'' new_validator =
     Inr (0, new_validator) \<and>
   process_exit (validate sample_libs sample_fs ''/repo/sample-pattern'' ''/repo'' new_validator) = 0 \<and>
   validate sample_libs sample_fs ''/repo/odd-category'' ''/repo'' new_validator =
     Inr (0, \<lparr>errors = [],
              warnings = [''README.md is missing recommended sections: Implementation, Prerequisites'']\<rparr>) \<and>
   existsSync sample_fs ''/repo/sample-pattern'' ''pattern.yaml'' \<and>
   load_pattern_yaml sample_libs sample_fs ''/repo/sample-pattern'' = Inr (Doc doc_sample) \<and>
   \<not> existsSync sample_fs ''/bare'' ''schemas/pattern-schema.json'' \<and>
   process_exit (validate sample_libs sample_fs ''/repo/sample-pattern'' ''/bare'' new_validator) = 1"
proof -
  have a: "validate sample_libs sample_fs ''/repo/sample-pattern'' ''/repo'' new_validator =
     Inr (0, new_validator)"
    by code_simp
  have b: "validate sample_libs sample_fs ''/repo/odd-category'' ''/repo'' new_validator =
     Inr (0, \<lparr>errors = [],
              warnings = [''README.md is missing recommended sections: Implementation, Prerequisites'']\<rparr>)"
    by code_simp
  have c: "existsSync sample_fs ''/repo/sample-pattern'' ''pattern.yaml'' \<and>
   load_pattern_yaml sample_libs sample_fs ''/repo/sample-pattern'' = Inr (Doc doc_sample) \<and>
   \<not> existsSync sample_fs ''/bare'' ''schemas/pattern-schema.json''"
    by code_simp
  show ?thesis
    using validate_exit_code [of sample_libs sample_fs "''/repo/sample-pattern''" "''/repo''" new_validator]
      validate_exit_code [of sample_libs sample_fs "''/repo/sample-pattern''" "''/bare''" new_validator]
      a b c
    by (auto split: sum.splits)
qed

text \<open>
  Claim C5 as stated fails: without the schema file the run of an otherwise faultless entry
  ends with status 1, the status of the failing entry next to it, and the missing schema is
  an element of the entry's list of errors.
\<close>

theorem missing_schema_counterexample:
  "\<not> existsSync sample_fs ''/bare'' ''schemas/pattern-schema.json'' \<and>
   validate sample_libs sample_fs ''/repo/sample-pattern'' ''/bare'' new_validator =
     Inr (1, \<lparr>errors = [''JSON Schema not found at schemas/pattern-schema.json''],
              warnings = []\<rparr>) \<and>
   process_exit (validate sample_libs sample_fs ''/repo/sample-pattern'' ''/bare'' new_validator) = 1 \<and>
   process_exit (validate sample_libs sample_fs ''/repo/one-dangling'' ''/repo'' new_validator) = 1"
  by code_simp

lemma includes_str_sublist: "includes_str hay needle \<longleftrightarrow> sublist needle hay"
  by (induction hay) (simp_all add: sublist_Cons_right)

text \<open>
  Claim C6, as amended. For an entry whose documentation file exists, the check warns that
  the file is too short when its text has fewer than 100 characters, and does nothing else
  then; for a longer text it emits one warning that lists every recommended heading
  (Overview, Architecture, Implementation, Prerequisites) that is no substring of the text,
  case ignored, and none when all occur. It never records an error, so it never changes the
  verdict.
\<close>

theorem validateReadme_warnings:
  assumes "fs patternDir ''README.md'' = Some (File content)"
  shows "validateReadme fs patternDir v =
           Inr (True,
                if length content < 100 then warning too_short_warning v
                else if missingSections content = [] then v
                else warning (missing_sections_warning (missingSections content)) v) \<and>
         missingSections content =
           filter (\<lambda>heading. \<not> sublist (toLowerCase heading) (toLowerCase content))
             [''Overview'', ''Architecture'', ''Implementation'', ''Prerequisites''] \<and>
         (\<forall>ok v'. validateReadme fs patternDir v = Inr (ok, v') \<longrightarrow>
            errors v' = errors v \<and> verdict_fail v' = verdict_fail v)"
proof -
  have run: "validateReadme fs patternDir v =
           Inr (True,
                if length content < 100 then warning too_short_warning v
                else if missingSections content = [] then v
                else warning (missing_sections_warning (missingSections content)) v)"
    using assms
    by (simp add: validateReadme_def existsSync_def readFileSync_def minLength_def)
  have miss: "missingSections content =
           filter (\<lambda>heading. \<not> sublist (toLowerCase heading) (toLowerCase content))
             [''Overview'', ''Architecture'', ''Implementation'', ''Prerequisites'']"
    by (simp only: missingSections_def recommendedSections_def includes_str_sublist)
  have keep: "errors v' = errors v \<and> verdict_fail v' = verdict_fail v"
    if "validateReadme fs patternDir v = Inr (ok, v')" for ok v'
    using validateReadme_errors [OF that] by (simp add: verdict_fail_def)
  from run miss keep show ?thesis by blast
qed

lemma sample_partial_readme:
  "sample_fs ''/repo/odd-category'' ''README.md'' = Some (File readme_partial)"
  by (simp add: sample_fs_def entry_files_def)

lemma sample_partial_missing:
  "\<not> length readme_partial < 100 \<and> missingSections readme_partial = [''Implementation'', ''Prerequisites'']"
  by code_simp

theorem validateReadme_warnings_witness:
  "sample_fs ''/repo/odd-category'' ''README.md'' = Some (File readme_partial) \<and>
   validateReadme sample_fs ''/repo/odd-category'' new_validator =
     Inr (True, \<lparr>errors = [],
                 warnings = [''README.md is missing recommended sections: Implementation, Prerequisites'']\<rparr>)"
  using validateReadme_warnings [of sample_fs "''/repo/odd-category''" readme_partial new_validator]
    sample_partial_readme sample_partial_missing
  by (simp add: warning_def new_validator_def missing_sections_warning_def)

text \<open>
  Claim C6 as stated fails: in a text of seven characters all four headings are absent, and
  the only warning is the one about the length.
\<close>

theorem short_readme_counterexample:
  "sample_fs ''/repo/malformed-entry'' ''README.md'' = Some (File readme_short) \<and>
   missingSections readme_short = [''Overview'', ''Architecture'', ''Implementation'', ''Prerequisites''] \<and>
   validateReadme sample_fs ''/repo/malformed-entry'' new_validator =
     Inr (True, \<lparr>errors = [], warnings = [too_short_warning]\<rparr>) \<and>
   too_short_warning \<noteq> missing_sections_warning (missingSections readme_short)"
  by code_simp

section \<open>Verification: the reviewer notifier\<close>


lemma track_reviewers_all:
  "allReviewers (foldl (track_reviewer c) n revs) =
     foldl (\<lambda>acc x. set_add x acc) (allReviewers n) revs"
  by (induction revs arbitrary: n) (simp_all add: track_reviewer_def)


lemma process_pattern_all:
  "allReviewers (process_pattern L fs n patternDir) =
     (case getPatternCategory L fs patternDir of
        None \<Rightarrow> allReviewers n
      | Some c \<Rightarrow> foldl (\<lambda>acc x. set_add x acc) (allReviewers n)
                   (getReviewersForCategory (Some c)))"
  by (simp add: process_pattern_def Let_def track_reviewers_all split: option.splits)



lemma foldl_process_all:
  "allReviewers (foldl (process_pattern L fs) n patternDirs) =
     ordered_union (allReviewers n)
       (map (\<lambda>d. assigned (assignment_for L fs d))
          (filter (\<lambda>d. getPatternCategory L fs d \<noteq> None) patternDirs))"
proof (induction patternDirs arbitrary: n)
  case Nil
  show ?case by (simp add: ordered_union_def)
next
  case (Cons d ds)
  show ?case
    by (cases "getPatternCategory L fs d")
       (simp_all add: Cons process_pattern_all ordered_union_def assignment_for_def)
qed

text \<open>What the aggregate of a run is: the ordered union of the reviewers of those
  directories only whose category could be read.\<close>

lemma processPatterns_allReviewers:
  "allReviewers (processPatterns L fs patternDirs n) =
     ordered_union (allReviewers n)
       (map (\<lambda>d. assigned (assignment_for L fs d))
          (filter (\<lambda>d. getPatternCategory L fs d \<noteq> None) patternDirs))"
  by (simp add: processPatterns_def foldl_process_all ordered_union_def)




text \<open>
  Claim C3 fails on the code. The entry below has unparseable metadata: its assignment holds
  the two fallback reviewers, and the reviewers of the run's output are empty, because
  reviewers are added to the aggregate only inside \<^verbatim>\<open>if (category)\<close>. The entry with an
  unrecognized category, which gets the same fallback reviewers, does contribute them.
\<close>

theorem fallback_reviewers_not_aggregated:
  "getPatternCategory sample_libs sample_fs ''/repo/malformed-entry'' = None \<and>
   (case run sample_libs sample_fs False [''/repo/malformed-entry''] of
      Inl c \<Rightarrow> False
    | Inr out \<Rightarrow>
        out_reviewers out = [] \<and>
        map assigned (out_patterns out) = [[''pattern-maintainer1'', ''pattern-maintainer2'']]) \<and>
   allReviewers (processPatterns sample_libs sample_fs [''/repo/odd-category''] new_notifier) =
     [''pattern-maintainer1'', ''pattern-maintainer2'']"
  by code_simp

text \<open>
  Claim C10. Processing an empty list of directories leaves a new notifier as it is, and
  \<^verbatim>\<open>generateComment\<close> then returns \<^verbatim>\<open>null\<close>: the output of the run carries no comment,
  neither returned nor written. In general \<^verbatim>\<open>generateComment\<close> returns \<^verbatim>\<open>null\<close> exactly
  when there is no processed entry; it never returns a report without entries.
\<close>

theorem empty_run_no_comment:
  "processPatterns L fs [] new_notifier = new_notifier \<and>
   generateComment (processPatterns L fs [] new_notifier) = Inr None \<and>
   run L fs github_output [] =
     Inr \<lparr>out_reviewers = [], out_patterns = [], out_comment = None, pr_comment = None\<rparr> \<and>
   (generateComment n = Inr None) = (patterns n = [])"
proof -
  have "(generateComment n = Inr None) = (patterns n = [])"
    by (simp add: generateComment_def split: sum.splits)
  then show ?thesis
    by (simp add: processPatterns_def generateComment_def run_def generateOutput_def
        new_notifier_def)
qed

lemma map_has_proj:
  "map_has (map (\<lambda>(k, g). (k, map f g)) m) k = map_has m k"
  by (auto simp: map_has_def image_iff split: prod.splits) force+

lemma map_set_proj:
  "map (\<lambda>(k, g). (k, map f g)) (map_set k [] m) =
     map_set k [] (map (\<lambda>(k, g). (k, map f g)) m)"
  by (induction m) auto

lemma map_get_push_proj:
  "map (\<lambda>(k, g). (k, map f g)) (map_get_push k x m) =
     map_get_push k (f x) (map (\<lambda>(k, g). (k, map f g)) m)"
  by (induction m) (auto simp: map_get_push_def)

lemma group_pattern_proj:
  "map (\<lambda>(k, g). (k, map directory g)) (group_pattern m a) =
     map_get_push (label a) (directory a)
       (if \<not> map_has (map (\<lambda>(k, g). (k, map directory g)) m) (label a)
        then map_set (label a) [] (map (\<lambda>(k, g). (k, map directory g)) m)
        else map (\<lambda>(k, g). (k, map directory g)) m)"
  by (simp add: group_pattern_def map_get_push_proj map_set_proj map_has_proj)

lemma groups_proj:
  assumes "map (\<lambda>a. (label a, directory a)) ps = map (\<lambda>a. (label a, directory a)) ps'"
    and "map (\<lambda>(k, g). (k, map directory g)) m = map (\<lambda>(k, g). (k, map directory g)) m'"
  shows "map (\<lambda>(k, g). (k, map directory g)) (foldl group_pattern m ps) =
         map (\<lambda>(k, g). (k, map directory g)) (foldl group_pattern m' ps')"
  using assms
proof (induction ps arbitrary: ps' m m')
  case Nil
  then show ?case by simp
next
  case (Cons a as)
  then obtain a' as' where ps': "ps' = a' # as'" "label a = label a'" "directory a = directory a'"
    "map (\<lambda>a. (label a, directory a)) as = map (\<lambda>a. (label a, directory a)) as'"
    by (cases ps') auto
  have "map (\<lambda>(k, g). (k, map directory g)) (group_pattern m a) =
        map (\<lambda>(k, g). (k, map directory g)) (group_pattern m' a')"
    unfolding group_pattern_proj using Cons.prems(2) ps'(2,3) by simp
  with Cons.IH [OF ps'(4)] show ?case by (simp add: ps'(1))
qed

lemma pattern_lines_directories:
  "map directory g = map directory g' \<Longrightarrow> pattern_lines g = pattern_lines g'"
proof (induction g arbitrary: g')
  case Nil
  then show ?case by (simp add: pattern_lines_def)
next
  case (Cons a as)
  then obtain a' as' where "g' = a' # as'" "directory a = directory a'"
    "map directory as = map directory as'"
    by (cases g') auto
  with Cons.IH [of as'] show ?case by (simp add: pattern_lines_def)
qed

lemma category_section_proj:
  assumes "fst g = fst g'" "map directory (snd g) = map directory (snd g')"
  shows "category_section g = category_section g'"
  using assms(1) pattern_lines_directories [OF assms(2)]
  by (simp add: category_section_def split: property.splits)

lemma category_sections_proj:
  assumes "map (\<lambda>(k, g). (k, map directory g)) gs = map (\<lambda>(k, g). (k, map directory g)) gs'"
  shows "category_sections comment gs = category_sections comment gs'"
  using assms
proof (induction gs arbitrary: gs' comment)
  case Nil
  then show ?case by simp
next
  case (Cons g gs)
  then obtain g' gs2 where gs': "gs' = g' # gs2" "fst g = fst g'"
    "map directory (snd g) = map directory (snd g')"
    "map (\<lambda>(k, g). (k, map directory g)) gs = map (\<lambda>(k, g). (k, map directory g)) gs2"
    by (cases gs') (auto split: prod.splits)
  from category_section_proj [OF gs'(2,3)] Cons.IH [OF gs'(4)] show ?case
    by (simp add: gs'(1) split: sum.splits)
qed

lemma generateComment_entries:
  assumes "map (\<lambda>a. (label a, directory a)) (patterns n) =
           map (\<lambda>a. (label a, directory a)) (patterns n')"
  shows "generateComment n = generateComment n'"
proof -
  have "length (patterns n) = length (patterns n')"
    using assms by (rule map_eq_imp_length_eq)
  then have "(patterns n = []) = (patterns n' = [])"
    by (simp flip: length_0_conv)
  moreover have "category_sections comment_header (patternsByCategory (patterns n)) =
        category_sections comment_header (patternsByCategory (patterns n'))"
    unfolding patternsByCategory_def
    by (rule category_sections_proj, rule groups_proj [OF assms]) simp
  ultimately show ?thesis by (simp add: generateComment_def)
qed

text \<open>
  Claim C8. The text of the report is a function of the processed entries: two notifiers
  whose assignments agree in the sequence of labels and directories yield the same result of
  \<^verbatim>\<open>generateComment\<close>; the two calls that \<^verbatim>\<open>generateOutput\<close> makes on one state
  return the same text; and a run that writes the output file and one that does not return
  the same comment for the same directories.
\<close>

theorem generateComment_deterministic:
  "(map (\<lambda>a. (label a, directory a)) (patterns n) =
      map (\<lambda>a. (label a, directory a)) (patterns n') \<longrightarrow>
    generateComment n = generateComment n') \<and>
   (\<forall>out. generateOutput True n = Inr out \<longrightarrow>
      generateComment n = Inr (out_comment out) \<and> pr_comment out = out_comment out) \<and>
   (\<forall>out out'. run L fs True patternDirs = Inr out \<and> run L fs False patternDirs = Inr out' \<longrightarrow>
      out_comment out = out_comment out' \<and> out_comment out = pr_comment out)"
proof -
  have twice: "generateComment m = Inr (out_comment out) \<and> pr_comment out = out_comment out"
    if "generateOutput True m = Inr out" for m out
    using that by (auto simp: generateOutput_def Let_def split: sum.splits)
  have once: "generateComment m = Inr (out_comment out)"
    if "generateOutput False m = Inr out" for m out
    using that by (auto simp: generateOutput_def Let_def split: sum.splits)
  have runs: "out_comment out = out_comment out' \<and> out_comment out = pr_comment out"
    if "run L fs True patternDirs = Inr out" "run L fs False patternDirs = Inr out'" for out out'
    using twice [of "processPatterns L fs patternDirs new_notifier" out]
      once [of "processPatterns L fs patternDirs new_notifier" out'] that
    by (simp add: run_def)
  show ?thesis
  proof (intro conjI)
    show "map (\<lambda>a. (label a, directory a)) (patterns n) =
      map (\<lambda>a. (label a, directory a)) (patterns n') \<longrightarrow>
    generateComment n = generateComment n'"
      using generateComment_entries [of n n'] by (rule impI)
    show "\<forall>out. generateOutput True n = Inr out \<longrightarrow>
      generateComment n = Inr (out_comment out) \<and> pr_comment out = out_comment out"
      using twice [of n] by (intro allI impI)
    show "\<forall>out out'. run L fs True patternDirs = Inr out \<and> run L fs False patternDirs = Inr out' \<longrightarrow>
      out_comment out = out_comment out' \<and> out_comment out = pr_comment out"
      using runs by (intro allI impI) (elim conjE)
  qed
qed


theorem generateComment_deterministic_witness:
  "generateComment
     \<lparr>allReviewers = [''automation-sme1'', ''automation-sme2''], categoryReviewers = [],
      patterns = [\<lparr>directory = ''sample-pattern'', label = ''automation'',
                    assigned = [''automation-sme1'', ''automation-sme2'']\<rparr>]\<rparr> =
   generateComment
     \<lparr>allReviewers = [], categoryReviewers = [],
      patterns = [\<lparr>directory = ''sample-pattern'', label = ''automation'', assigned = []\<rparr>]\<rparr> \<and>
   \<not> isl (run sample_libs sample_fs True [''/repo/sample-pattern'']) \<and>
   \<not> isl (run sample_libs sample_fs False [''/repo/sample-pattern'']) \<and>
   pr_comment (projr (run sample_libs sample_fs True [''/repo/sample-pattern''])) =
     out_comment (projr (run sample_libs sample_fs False [''/repo/sample-pattern'']))"
proof -
  let ?n = "\<lparr>allReviewers = [''automation-sme1'', ''automation-sme2''], categoryReviewers = [],
      patterns = [\<lparr>directory = ''sample-pattern'', label = ''automation'',
                    assigned = [''automation-sme1'', ''automation-sme2'']\<rparr>]\<rparr>"
  let ?n' = "\<lparr>allReviewers = [], categoryReviewers = [],
      patterns = [\<lparr>directory = ''sample-pattern'', label = ''automation'', assigned = []\<rparr>]\<rparr>"
  have t: "\<not> isl (run sample_libs sample_fs True [''/repo/sample-pattern''])"
    by code_simp
  have f: "\<not> isl (run sample_libs sample_fs False [''/repo/sample-pattern''])"
    by code_simp
  from t obtain out where out: "run sample_libs sample_fs True [''/repo/sample-pattern''] = Inr out"
    by (cases "run sample_libs sample_fs True [''/repo/sample-pattern'']") auto
  from f obtain out' where out': "run sample_libs sample_fs False [''/repo/sample-pattern''] = Inr out'"
    by (cases "run sample_libs sample_fs False [''/repo/sample-pattern'']") auto
  have "generateComment ?n = generateComment ?n'"
    using generateComment_deterministic [of ?n ?n' sample_libs sample_fs "[]"] by simp
  moreover have "out_comment out = out_comment out' \<and> out_comment out = pr_comment out"
    using generateComment_deterministic
      [of ?n ?n' sample_libs sample_fs "[''/repo/sample-pattern'']"] out out'
    by blast
  then have "pr_comment out = out_comment out'"
    by (elim conjE) (rule trans [OF sym])
  ultimately show ?thesis
    using t f by (simp add: out out')
qed

section \<open>Verification: the change detector\<close>

lemma distinct_remdups_adj_sorted:
  fixes xs :: "'a::linorder list"
  shows "sorted xs \<Longrightarrow> distinct (remdups_adj xs)"
  by (induction xs rule: remdups_adj.induct) auto

lemma sort_u_sort_remdups: "sort_u xs = sort (remdups xs)"
proof -
  have "sorted (sort_u xs)" "distinct (sort_u xs)" "set (sort_u xs) = set xs"
    by (simp_all add: sort_u_def sorted_remdups_adj distinct_remdups_adj_sorted)
  moreover have "sorted (sort (remdups xs))" "distinct (sort (remdups xs))"
    "set (sort (remdups xs)) = set xs"
    by simp_all
  ultimately show ?thesis
    using sorted_distinct_set_unique by blast
qed

lemma filter_sort_remdups:
  "filter P (sort (remdups xs)) = sort (remdups (filter P xs))"
proof -
  have "sorted (filter P (sort (remdups xs)))" "distinct (filter P (sort (remdups xs)))"
    by (simp_all add: sorted_wrt_filter)
  moreover have "set (filter P (sort (remdups xs))) = set (sort (remdups (filter P xs)))"
    by auto
  moreover have "sorted (sort (remdups (filter P xs)))" "distinct (sort (remdups (filter P xs)))"
    by simp_all
  ultimately show ?thesis
    using sorted_distinct_set_unique by blast
qed

lemma greps_excluded:
  "grep_v_prefix ''.''
     (grep_v_prefix ''LICENSE''
       (grep_v_line ''README.md''
         (grep_v_prefix ''pattern-template/''
           (grep_v_line ''categories.config.json''
             (grep_v_prefix ''schemas/''
               (grep_v_prefix ''.github/'' ls)))))) =
   filter (\<lambda>p. \<not> excluded_path p) ls"
  by (induction ls) (auto simp: grep_v_prefix_def grep_v_line_def excluded_path_def)

lemma split_words_plain:
  assumes "\<forall>c \<in> set s. \<not> is_ifs c"
  shows "split_words w s = (if w = [] \<and> s = [] then [] else [rev w @ s])"
  using assms by (induction s arbitrary: w) auto

lemma for_words_plain:
  assumes "\<forall>s \<in> set ls. s \<noteq> [] \<and> (\<forall>c \<in> set s. \<not> is_ifs c)"
  shows "for_words ls = ls"
  using assms by (induction ls) (simp_all add: for_words_def split_words_plain)

lemma excluded_path_dot: "\<not> excluded_path p \<Longrightarrow> cut_f1 p \<noteq> ''.''"
  by (cases p) (auto simp: excluded_path_def cut_f1_def split: if_splits)

lemma git_print_plain: "\<forall>c \<in> set p. \<not> git_quoted_char c \<Longrightarrow> git_print p = p"
  by (simp add: git_print_def list_ex_iff)

lemma CHANGED_FILES_plain:
  "\<forall>p \<in> set paths. \<forall>c \<in> set p. \<not> git_quoted_char c \<Longrightarrow> CHANGED_FILES paths = paths"
  by (simp add: CHANGED_FILES_def git_print_plain map_idI)

lemma echo_option_dash: "echo_option l \<Longrightarrow> \<not> excluded_path l \<and> prefix ''-'' (cut_f1 l)"
  by (cases l) (auto simp: echo_option_def excluded_path_def cut_f1_def)

lemma echo_lines_plain:
  assumes "\<forall>l \<in> set ls. \<not> excluded_path l \<longrightarrow> \<not> prefix ''-'' (cut_f1 l)"
  shows "echo_lines ls = (if ls = [] then [[]] else ls)"
proof -
  have "\<not> echo_option l" if "l \<in> set ls" for l
    using assms that echo_option_dash by blast
  then show ?thesis
    by (auto simp: echo_lines_def split: list.splits)
qed

lemma PATTERN_DIRS_eq:
  assumes "\<forall>l \<in> set ls. \<not> excluded_path l \<longrightarrow> \<not> prefix ''-'' (cut_f1 l)"
  shows "PATTERN_DIRS ls =
     sort (remdups (filter (\<lambda>seg. seg \<noteq> [])
       (map cut_f1 (filter (\<lambda>p. \<not> excluded_path p) ls))))"
proof -
  have echo: "filter (\<lambda>seg. seg \<noteq> []) (map cut_f1 (filter (\<lambda>p. \<not> excluded_path p) (echo_lines ls))) =
        filter (\<lambda>seg. seg \<noteq> []) (map cut_f1 (filter (\<lambda>p. \<not> excluded_path p) ls))"
    by (simp add: echo_lines_plain [OF assms] excluded_path_def cut_f1_def)
  have "PATTERN_DIRS ls =
     filter (\<lambda>seg. seg \<noteq> [])
       (sort (remdups (map cut_f1 (filter (\<lambda>p. \<not> excluded_path p) (echo_lines ls)))))"
    unfolding PATTERN_DIRS_def greps_excluded
    by (simp add: sort_u_sort_remdups grep_v_line_def)
  then show ?thesis
    by (simp add: filter_sort_remdups echo)
qed

lemma xargs_echo_plain:
  assumes "\<forall>w \<in> set ws. \<not> prefix ''-'' w"
  shows "xargs_echo env ws = ws"
proof -
  have "\<not> echo_option w" if "w \<in> set ws" for w
    using assms that by (cases w) (auto simp: echo_option_def)
  then have "dropWhile echo_option ws = ws"
    by (cases ws) auto
  moreover have "ws \<noteq> [''--help'']" "ws \<noteq> [''--version'']"
    using assms by auto
  ultimately show ?thesis
    by (simp add: xargs_echo_def)
qed

lemma append_output_plain:
  assumes "GITHUB_OUTPUT env = Some f" "f \<noteq> []" "\<forall>c \<in> set f. \<not> shell_special c"
    "can_append env f"
  shows "append_output env"
proof -
  have "split_words [] f = [f]"
    using assms(2,3) by (simp add: split_words_plain shell_special_def)
  with assms(1,4) show ?thesis
    by (simp add: append_output_def)
qed

text \<open>
  Claim C9, as amended. Suppose that \<^verbatim>\<open>GITHUB_OUTPUT\<close> names one file, in a word without
  characters special to the shell, that the file can be appended to and that \<^verbatim>\<open>jq\<close>
  succeeds; that no differing path has a character that git prints quoted (a control
  character, a double quote, a backslash, a byte from 127 on); and that no first segment of
  a path that the denylist keeps begins with a dash or contains a blank, a tab, a newline,
  a pattern character, a quote or a backslash. Then the detected entries are: the differing
  paths that do not begin with \<^verbatim>\<open>.github/\<close>, \<^verbatim>\<open>schemas/\<close>, \<^verbatim>\<open>pattern-template/\<close>,
  \<^verbatim>\<open>LICENSE\<close> or a dot and are neither \<^verbatim>\<open>categories.config.json\<close> nor
  \<^verbatim>\<open>README.md\<close>; of these the first segments, without the empty ones, deduplicated and
  sorted in the order of the bytes; of these the existing directories. The list is sorted
  and free of duplicates, the count is its length, and the run ends with status 0. Without
  any changed file the list is empty, and the run ends with status 0 as well.
\<close>

theorem detect_changed_patterns_entries:
  assumes "GITHUB_OUTPUT env = Some f" "f \<noteq> []" "\<forall>c \<in> set f. \<not> shell_special c"
    "can_append env f" "jq_status env = 0"
    and "\<forall>p \<in> set paths. \<forall>c \<in> set p. \<not> git_quoted_char c"
    and "\<forall>p \<in> set paths.
           \<not> excluded_path p \<longrightarrow>
             (\<forall>c \<in> set (cut_f1 p). \<not> shell_special c) \<and> \<not> prefix ''-'' (cut_f1 p)"
  shows "detect_changed_patterns env (Inr paths) =
           Inr \<lparr>changed_patterns =
                   filter (dir_exists env) (sort (remdups (filter (\<lambda>seg. seg \<noteq> [])
                     (map cut_f1 (filter (\<lambda>p. \<not> excluded_path p) paths))))),
                 pattern_count =
                   length (filter (dir_exists env) (sort (remdups (filter (\<lambda>seg. seg \<noteq> [])
                     (map cut_f1 (filter (\<lambda>p. \<not> excluded_path p) paths)))))),
                 exit_status = 0\<rparr> \<and>
         sorted (filter (dir_exists env) (sort (remdups (filter (\<lambda>seg. seg \<noteq> [])
                     (map cut_f1 (filter (\<lambda>p. \<not> excluded_path p) paths)))))) \<and>
         distinct (filter (dir_exists env) (sort (remdups (filter (\<lambda>seg. seg \<noteq> [])
                     (map cut_f1 (filter (\<lambda>p. \<not> excluded_path p) paths)))))) \<and>
         detect_changed_patterns env (Inr []) =
           Inr \<lparr>changed_patterns = [], pattern_count = 0, exit_status = 0\<rparr>"
proof -
  let ?segs = "sort (remdups (filter (\<lambda>seg. seg \<noteq> [])
                 (map cut_f1 (filter (\<lambda>p. \<not> excluded_path p) paths))))"
  have out: "append_output env"
    using assms(1-4) by (rule append_output_plain)
  have lines: "CHANGED_FILES paths = paths"
    using assms(6) by (rule CHANGED_FILES_plain)
  have nodash: "\<forall>l \<in> set paths. \<not> excluded_path l \<longrightarrow> \<not> prefix ''-'' (cut_f1 l)"
    using assms(7) by blast
  have dirs: "PATTERN_DIRS (CHANGED_FILES paths) = ?segs"
    unfolding lines using nodash by (rule PATTERN_DIRS_eq)
  have plain: "\<forall>s \<in> set ?segs. s \<noteq> [] \<and> (\<forall>c \<in> set s. \<not> is_ifs c)"
    using assms(7) by (auto simp: shell_special_def)
  have dot: "\<forall>s \<in> set ?segs. s \<noteq> ''.''"
    using excluded_path_dot by auto
  have "filter (\<lambda>dir. dir_exists env dir \<and> dir \<noteq> ''.'') ?segs = filter (dir_exists env) ?segs"
    by (rule filter_cong [OF refl]) (use dot in blast)
  then have collected: "collected_dirs env (CHANGED_FILES paths) = filter (dir_exists env) ?segs"
    unfolding collected_dirs_def dirs for_words_plain [OF plain] .
  have "\<forall>w \<in> set (filter (dir_exists env) ?segs). \<not> prefix ''-'' w"
    using assms(7) by auto
  then have valid: "VALID_PATTERN_DIRS env (CHANGED_FILES paths) = filter (dir_exists env) ?segs"
    unfolding VALID_PATTERN_DIRS_def collected by (rule xargs_echo_plain)
  have run: "detect_changed_patterns env (Inr paths) =
           Inr \<lparr>changed_patterns = filter (dir_exists env) ?segs,
                 pattern_count = length (filter (dir_exists env) ?segs), exit_status = 0\<rparr>"
  proof (cases "?segs = []")
    case True
    then show ?thesis
      by (simp add: detect_changed_patterns_def dirs out)
  next
    case False
    then show ?thesis
      by (simp add: detect_changed_patterns_def dirs valid out assms(5))
  qed
  have ordered: "sorted (filter (dir_exists env) ?segs) \<and> distinct (filter (dir_exists env) ?segs)"
    by (simp add: sorted_wrt_filter)
  have "PATTERN_DIRS (CHANGED_FILES []) = []"
    by (simp add: CHANGED_FILES_def PATTERN_DIRS_eq)
  then have none: "detect_changed_patterns env (Inr []) =
           Inr \<lparr>changed_patterns = [], pattern_count = 0, exit_status = 0\<rparr>"
    by (simp add: detect_changed_patterns_def out)
  from run ordered none show ?thesis by simp
qed


lemma sample_diff_plain:
  "\<forall>p \<in> set [''lambda-sqs-processing/README.md'', ''lambda-sqs-processing/pattern.yaml'',
          ''.github/scripts/validate-pattern.js'', ''README.md'', ''api-gateway/pattern.yaml'',
          ''removed-pattern/README.md'', ''schemas/pattern-schema.json''].
     \<forall>c \<in> set p. \<not> git_quoted_char c"
  by (simp add: git_quoted_char_def)

lemma sample_diff_segments:
  "\<forall>p \<in> set [''lambda-sqs-processing/README.md'', ''lambda-sqs-processing/pattern.yaml'',
          ''.github/scripts/validate-pattern.js'', ''README.md'', ''api-gateway/pattern.yaml'',
          ''removed-pattern/README.md'', ''schemas/pattern-schema.json''].
     \<not> excluded_path p \<longrightarrow>
       (\<forall>c \<in> set (cut_f1 p). \<not> shell_special c) \<and> \<not> prefix ''-'' (cut_f1 p)"
  by (simp add: excluded_path_def cut_f1_def is_ifs_def shell_special_def)

lemma runner_env_output:
  "GITHUB_OUTPUT (runner_env dirs) = Some ''/home/runner/work/_temp/set_output'' \<and>
   ''/home/runner/work/_temp/set_output'' \<noteq> [] \<and>
   (\<forall>c \<in> set ''/home/runner/work/_temp/set_output''. \<not> shell_special c) \<and>
   can_append (runner_env dirs) ''/home/runner/work/_temp/set_output'' \<and>
   jq_status (runner_env dirs) = 0"
  by (simp add: runner_env_def shell_special_def is_ifs_def)

theorem detect_changed_patterns_entries_witness:
  "detect_changed_patterns
     (runner_env [''lambda-sqs-processing'', ''api-gateway'', ''schemas'', ''.github''])
     (Inr [''lambda-sqs-processing/README.md'', ''lambda-sqs-processing/pattern.yaml'',
          ''.github/scripts/validate-pattern.js'', ''README.md'', ''api-gateway/pattern.yaml'',
          ''removed-pattern/README.md'', ''schemas/pattern-schema.json'']) =
   Inr \<lparr>changed_patterns = [''api-gateway'', ''lambda-sqs-processing''],
         pattern_count = 2, exit_status = 0\<rparr>"
proof -
  let ?env = "runner_env [''lambda-sqs-processing'', ''api-gateway'', ''schemas'', ''.github'']"
  have segs: "filter (dir_exists ?env)
      (sort (remdups (filter (\<lambda>seg. seg \<noteq> [])
         (map cut_f1 (filter (\<lambda>p. \<not> excluded_path p)
            [''lambda-sqs-processing/README.md'', ''lambda-sqs-processing/pattern.yaml'',
          ''.github/scripts/validate-pattern.js'', ''README.md'', ''api-gateway/pattern.yaml'',
          ''removed-pattern/README.md'', ''schemas/pattern-schema.json'']))))) =
      [''api-gateway'', ''lambda-sqs-processing'']"
    by code_simp
  from runner_env_output [of "[''lambda-sqs-processing'', ''api-gateway'', ''schemas'', ''.github'']"]
  have out: "GITHUB_OUTPUT ?env = Some ''/home/runner/work/_temp/set_output''"
    "''/home/runner/work/_temp/set_output'' \<noteq> []"
    "\<forall>c \<in> set ''/home/runner/work/_temp/set_output''. \<not> shell_special c"
    "can_append ?env ''/home/runner/work/_temp/set_output''"
    "jq_status ?env = 0"
    by blast+
  show ?thesis
    using detect_changed_patterns_entries [OF out sample_diff_plain sample_diff_segments]
    unfolding segs by simp
qed

text \<open>
  Claim C9 as stated fails. A changed entry whose name contains a blank is split into words
  by the loop over the directories, and is lost. The denylist is applied to paths, not to
  segments: read as names of segments, it would drop the entry \<^verbatim>\<open>schemas-v2\<close>, which the
  script reports; read as it stands, it would keep \<^verbatim>\<open>schemas\<close>, which the script drops.
  An entry whose only changed file has a name that git prints quoted is lost, and so is an
  entry named \<^verbatim>\<open>-n\<close>, which \<^verbatim>\<open>echo\<close> takes for an option. And without
  \<^verbatim>\<open>GITHUB_OUTPUT\<close> the run ends with status 1 even when no file has changed, and
  without \<^verbatim>\<open>jq\<close> it ends with status 127 when an entry was found.
\<close>

theorem changed_entries_counterexample:
  "detect_changed_patterns (runner_env [''my pattern'']) (Inr [''my pattern/README.md'']) =
     Inr \<lparr>changed_patterns = [], pattern_count = 0, exit_status = 0\<rparr> \<and>
   changed_entries_spec denylist_names (dir_exists (runner_env [''my pattern'']))
     [''my pattern/README.md''] = [''my pattern''] \<and>
   changed_entries_spec denylist_patterns (dir_exists (runner_env [''my pattern'']))
     [''my pattern/README.md''] = [''my pattern''] \<and>
   detect_changed_patterns (runner_env [''schemas-v2'']) (Inr [''schemas-v2/pattern.yaml'']) =
     Inr \<lparr>changed_patterns = [''schemas-v2''], pattern_count = 1, exit_status = 0\<rparr> \<and>
   changed_entries_spec denylist_names (dir_exists (runner_env [''schemas-v2'']))
     [''schemas-v2/pattern.yaml''] = [] \<and>
   detect_changed_patterns (runner_env [''schemas'']) (Inr [''schemas/pattern-schema.json'']) =
     Inr \<lparr>changed_patterns = [], pattern_count = 0, exit_status = 0\<rparr> \<and>
   changed_entries_spec denylist_patterns (dir_exists (runner_env [''schemas'']))
     [''schemas/pattern-schema.json''] = [''schemas''] \<and>
   detect_changed_patterns (runner_env [''my-pattern''])
     (Inr [''my-pattern/caf'' @ [CHR 0xC3, CHR 0xA9] @ ''.png'']) =
     Inr \<lparr>changed_patterns = [], pattern_count = 0, exit_status = 0\<rparr> \<and>
   changed_entries_spec denylist_names (dir_exists (runner_env [''my-pattern'']))
     [''my-pattern/caf'' @ [CHR 0xC3, CHR 0xA9] @ ''.png''] = [''my-pattern''] \<and>
   changed_entries_spec denylist_patterns (dir_exists (runner_env [''my-pattern'']))
     [''my-pattern/caf'' @ [CHR 0xC3, CHR 0xA9] @ ''.png''] = [''my-pattern''] \<and>
   detect_changed_patterns (runner_env [''-n'']) (Inr [''-n/README.md'']) =
     Inr \<lparr>changed_patterns = [], pattern_count = 0, exit_status = 0\<rparr> \<and>
   changed_entries_spec denylist_names (dir_exists (runner_env [''-n''])) [''-n/README.md''] =
     [''-n''] \<and>
   changed_entries_spec denylist_patterns (dir_exists (runner_env [''-n''])) [''-n/README.md''] =
     [''-n''] \<and>
   detect_changed_patterns ((runner_env [])\<lparr>GITHUB_OUTPUT := None\<rparr>) (Inr []) = Inl 1 \<and>
   detect_changed_patterns ((runner_env [''api-gateway''])\<lparr>jq_status := 127\<rparr>)
     (Inr [''api-gateway/pattern.yaml'']) = Inl 127"
  by code_simp

end
